theory Spec2Isabelle
  imports Main "HOL-Library.Word" "HOL-Library.Monad_Syntax" "HOL-Library.Multiset"
begin

unbundle bit_operations_syntax

section \<open>Go slices and run-time panics\<close>

text \<open>
  A Go \<^verbatim>\<open>[]byte\<close> is modelled by its contents, a list of 8-bit words; the nil slice
  and the empty slice are both the empty list. An index expression \<^verbatim>\<open>s[i]\<close> and a slice
  expression \<^verbatim>\<open>s[lo:hi]\<close> panic at run time when out of range. A computation that may
  panic returns an option: \<open>None\<close> is the run-time panic. The slice expression is checked
  against the length (Go checks \<^verbatim>\<open>hi\<close> against the capacity, which is at least the
  length, so the model panics at least as often as the program does).
\<close>

type_synonym byte = "8 word"
type_synonym uint16 = "16 word"

definition index :: "'a list \<Rightarrow> nat \<Rightarrow> 'a option" where
  "index s i = (if i < length s then Some (s ! i) else None)"

definition slice :: "'a list \<Rightarrow> nat \<Rightarrow> nat \<Rightarrow> 'a list option" where
  "slice s lo hi = (if lo \<le> hi \<and> hi \<le> length s then Some (take (hi - lo) (drop lo s)) else None)"

definition slice_from :: "'a list \<Rightarrow> nat \<Rightarrow> 'a list option" where
  "slice_from s lo = slice s lo (length s)"

section \<open>The H264 depacketizer with sequence tracking\<close>

text \<open>
  The struct \<^verbatim>\<open>H264Depacketizer\<close> with the fields \<^verbatim>\<open>fuaBuf\<close>, \<^verbatim>\<open>fuaStarted\<close> and
  \<^verbatim>\<open>expectedSeq\<close>, whose \<^verbatim>\<open>Depacketize\<close> takes the RTP sequence number and the
  payload. A method with a pointer receiver takes the struct and returns it updated, next
  to its result.
\<close>

record H264Depacketizer =
  fuaBuf :: "byte list"
  fuaStarted :: bool
  expectedSeq :: uint16

definition NewH264Depacketizer :: H264Depacketizer where
  "NewH264Depacketizer = \<lparr>fuaBuf = [], fuaStarted = False, expectedSeq = 0\<rparr>"

text \<open>
  The loop of \<^verbatim>\<open>depacketizeSTAPA\<close>: \<^verbatim>\<open>offset\<close> and \<^verbatim>\<open>nalus\<close> are the loop variables.
  \<^verbatim>\<open>int(payload[offset])<<8 | int(payload[offset+1])\<close> is computed on Go's 64-bit
  \<^verbatim>\<open>int\<close>, where it cannot overflow; it is modelled on the natural numbers.
\<close>

function STAPA_loop :: "byte list \<Rightarrow> nat \<Rightarrow> byte list list \<Rightarrow> byte list list option" where
  "STAPA_loop payload offset nalus =
     (if offset + 2 \<le> length payload then
        (case index payload offset of
           None \<Rightarrow> None
         | Some b0 \<Rightarrow>
            (case index payload (offset + 1) of
               None \<Rightarrow> None
             | Some b1 \<Rightarrow>
                (let size = push_bit 8 (unat b0) OR unat b1;
                     offset' = offset + 2
                 in if size = 0 then Some nalus
                    else if offset' + size > length payload then Some nalus
                    else (case slice payload offset' (offset' + size) of
                            None \<Rightarrow> None
                          | Some nalu \<Rightarrow> STAPA_loop payload (offset' + size) (nalus @ [nalu])))))
      else Some nalus)"
  by pat_completeness auto
termination
  by (relation "measure (\<lambda>(payload, offset, nalus). length payload - offset)") auto

declare STAPA_loop.simps [simp del]

definition depacketizeSTAPA :: "byte list \<Rightarrow> byte list list option" where
  "depacketizeSTAPA payload = STAPA_loop payload 1 []"

definition depacketizeFUA ::
  "H264Depacketizer \<Rightarrow> uint16 \<Rightarrow> byte list \<Rightarrow> (byte list list \<times> H264Depacketizer) option" where
  "depacketizeFUA d sequenceNumber payload =
     (if length payload < 2 then Some ([], d)
      else do {
        b0 \<leftarrow> index payload 0;
        fuHeader \<leftarrow> index payload 1;
        let fnri = b0 AND 0xe0;
        let start = (fuHeader AND 0x80 \<noteq> 0);
        let end = (fuHeader AND 0x40 \<noteq> 0);
        let naluType = fuHeader AND 0x1f;
        if start then do {
          rest \<leftarrow> slice_from payload 2;
          let d1 = d\<lparr>fuaBuf := [fnri OR naluType], fuaStarted := True,
                     expectedSeq := sequenceNumber + 1\<rparr>;
          let d2 = d1\<lparr>fuaBuf := fuaBuf d1 @ rest\<rparr>;
          if end then Some ([fuaBuf d2], d2\<lparr>fuaBuf := [], fuaStarted := False\<rparr>)
          else Some ([], d2)
        }
        else if \<not> fuaStarted d then Some ([], d)
        else if sequenceNumber \<noteq> expectedSeq d then
          Some ([], d\<lparr>fuaBuf := [], fuaStarted := False\<rparr>)
        else do {
          rest \<leftarrow> slice_from payload 2;
          let d1 = d\<lparr>expectedSeq := sequenceNumber + 1\<rparr>;
          let d2 = d1\<lparr>fuaBuf := fuaBuf d1 @ rest\<rparr>;
          if end then Some ([fuaBuf d2], d2\<lparr>fuaBuf := [], fuaStarted := False\<rparr>)
          else Some ([], d2)
        }
      })"

definition Depacketize ::
  "H264Depacketizer \<Rightarrow> uint16 \<Rightarrow> byte list \<Rightarrow> (byte list list \<times> H264Depacketizer) option" where
  "Depacketize d sequenceNumber payload =
     (if length payload < 1 then Some ([], d)
      else do {
        b0 \<leftarrow> index payload 0;
        let naluType = b0 AND 0x1f;
        if 1 \<le> naluType \<and> naluType \<le> 23 then Some ([payload], d)
        else if naluType = 24 then do {
          nalus \<leftarrow> depacketizeSTAPA payload;
          Some (nalus, d)
        }
        else if naluType = 28 then depacketizeFUA d sequenceNumber payload
        else Some ([], d)
      })"

text \<open>
  Successive calls of \<^verbatim>\<open>Depacketize\<close> on one instance, one call for each packet
  (sequence number and payload) in arrival order: the results of the calls in order, and
  the instance after the last call.
\<close>

fun DepacketizeAll ::
  "H264Depacketizer \<Rightarrow> (uint16 \<times> byte list) list
     \<Rightarrow> (byte list list list \<times> H264Depacketizer) option" where
  "DepacketizeAll d [] = Some ([], d)"
| "DepacketizeAll d ((sequenceNumber, payload) # pkts) =
     (case Depacketize d sequenceNumber payload of
        None \<Rightarrow> None
      | Some (nalus, d') \<Rightarrow>
         (case DepacketizeAll d' pkts of
            None \<Rightarrow> None
          | Some (rest, d'') \<Rightarrow> Some (nalus # rest, d'')))"

subsection \<open>Vocabulary of the payload formats\<close>

text \<open>
  A FU-A fragment is a payload of at least two bytes (FU indicator and FU header) whose
  indicator has type 28 in its low five bits; the FU header carries the start flag
  \<^verbatim>\<open>0x80\<close> and the end flag \<^verbatim>\<open>0x40\<close>.
\<close>

definition is_FUA :: "byte list \<Rightarrow> bool" where
  "is_FUA payload \<longleftrightarrow> 2 \<le> length payload \<and> payload ! 0 AND 0x1f = 28"

definition FU_start :: "byte list \<Rightarrow> bool" where
  "FU_start payload \<longleftrightarrow> payload ! 1 AND 0x80 \<noteq> 0"

definition FU_end :: "byte list \<Rightarrow> bool" where
  "FU_end payload \<longleftrightarrow> payload ! 1 AND 0x40 \<noteq> 0"

text \<open>A middle or end fragment: a FU-A fragment with the start flag clear.\<close>

definition non_start_fragment :: "byte list \<Rightarrow> bool" where
  "non_start_fragment payload \<longleftrightarrow> is_FUA payload \<and> \<not> FU_start payload"

text \<open>
  The header byte of the fragmented unit: the top three bits of the FU indicator joined
  with the type in the low five bits of the FU header.
\<close>

definition NAL_header :: "byte list \<Rightarrow> byte" where
  "NAL_header payload = (payload ! 0 AND 0xe0) OR (payload ! 1 AND 0x1f)"

text \<open>
  The packets after the start fragment of a chain: non-start fragments numbered
  consecutively from \<open>s\<close> (modulo \<open>2 ^ 16\<close>), the last one carrying the end flag and no
  earlier one.
\<close>

fun chain_tail :: "uint16 \<Rightarrow> (uint16 \<times> byte list) list \<Rightarrow> bool" where
  "chain_tail s [] \<longleftrightarrow> False"
| "chain_tail s [(s', p)] \<longleftrightarrow> s' = s \<and> non_start_fragment p \<and> FU_end p"
| "chain_tail s ((s', p) # q # qs) \<longleftrightarrow>
     s' = s \<and> non_start_fragment p \<and> \<not> FU_end p \<and> chain_tail (s + 1) (q # qs)"

text \<open>
  The STAP-A layout: each aggregated unit is preceded by its length as two bytes, high
  byte first. \<open>declared_size\<close> reads such a length at the front of what remains of a
  payload, and \<open>stops\<close> holds when parsing ends there: fewer than two bytes are left, or
  the length read is zero or more than what follows it.
\<close>

definition stapa_entry :: "byte list \<Rightarrow> byte list" where
  "stapa_entry nalu = [of_nat (length nalu div 256), of_nat (length nalu mod 256)] @ nalu"

definition declared_size :: "byte list \<Rightarrow> nat" where
  "declared_size rest = 256 * unat (rest ! 0) + unat (rest ! 1)"

definition stops :: "byte list \<Rightarrow> bool" where
  "stops rest \<longleftrightarrow>
     length rest < 2 \<or> declared_size rest = 0 \<or> length rest < 2 + declared_size rest"

text \<open>
  A payload is laid out as \<open>units\<close> followed by \<open>rest\<close> when, after its first byte,
  it consists of the entries of the units (each unit non-empty and short enough for its
  length to fit two bytes) followed by a remainder at which parsing stops.
\<close>

definition stapa_layout :: "byte list \<Rightarrow> byte list list \<Rightarrow> byte list \<Rightarrow> bool" where
  "stapa_layout payload units rest \<longleftrightarrow>
     tl payload = concat (map stapa_entry units) @ rest \<and>
     (\<forall>u \<in> set units. 0 < length u \<and> length u < 65536) \<and>
     stops rest"

section \<open>The H264 depacketizer without sequence numbers\<close>

text \<open>
  The repository holds a second \<^verbatim>\<open>H264Depacketizer\<close>, in
  \<^verbatim>\<open>internal/webrtc/depacketize.go\<close>: its only field is \<^verbatim>\<open>fuaBuf\<close>, and its
  \<^verbatim>\<open>Depacketize\<close> takes the payload alone. It is the one that \<^verbatim>\<open>readVideoTrack\<close> in
  \<^verbatim>\<open>peer.go\<close> calls. Its names carry the suffix \<open>0\<close> here. The loop of its
  \<^verbatim>\<open>depacketizeSTAPA\<close> has no test for a size of zero, and its \<^verbatim>\<open>depacketizeFUA\<close>
  appends to the buffer whether or not a start fragment came before.
\<close>

record H264Depacketizer0 =
  fuaBuf0 :: "byte list"

definition NewH264Depacketizer0 :: H264Depacketizer0 where
  "NewH264Depacketizer0 = \<lparr>fuaBuf0 = []\<rparr>"

function STAPA_loop0 :: "byte list \<Rightarrow> nat \<Rightarrow> byte list list \<Rightarrow> byte list list option" where
  "STAPA_loop0 payload offset nalus =
     (if offset + 2 \<le> length payload then
        (case index payload offset of
           None \<Rightarrow> None
         | Some b0 \<Rightarrow>
            (case index payload (offset + 1) of
               None \<Rightarrow> None
             | Some b1 \<Rightarrow>
                (let size = push_bit 8 (unat b0) OR unat b1;
                     offset' = offset + 2
                 in if offset' + size > length payload then Some nalus
                    else (case slice payload offset' (offset' + size) of
                            None \<Rightarrow> None
                          | Some nalu \<Rightarrow> STAPA_loop0 payload (offset' + size) (nalus @ [nalu])))))
      else Some nalus)"
  by pat_completeness auto
termination
  by (relation "measure (\<lambda>(payload, offset, nalus). length payload - offset)") auto

declare STAPA_loop0.simps [simp del]

definition depacketizeSTAPA0 :: "byte list \<Rightarrow> byte list list option" where
  "depacketizeSTAPA0 payload = STAPA_loop0 payload 1 []"

definition depacketizeFUA0 ::
  "H264Depacketizer0 \<Rightarrow> byte list \<Rightarrow> (byte list list \<times> H264Depacketizer0) option" where
  "depacketizeFUA0 d payload =
     (if length payload < 2 then Some ([], d)
      else do {
        b0 \<leftarrow> index payload 0;
        fuHeader \<leftarrow> index payload 1;
        let fnri = b0 AND 0xe0;
        let start = (fuHeader AND 0x80 \<noteq> 0);
        let end = (fuHeader AND 0x40 \<noteq> 0);
        let naluType = fuHeader AND 0x1f;
        d1 \<leftarrow> (if start then do {
                 rest \<leftarrow> slice_from payload 2;
                 let d' = d\<lparr>fuaBuf0 := [fnri OR naluType]\<rparr>;
                 Some (d'\<lparr>fuaBuf0 := fuaBuf0 d' @ rest\<rparr>)
               }
               else do {
                 rest \<leftarrow> slice_from payload 2;
                 Some (d\<lparr>fuaBuf0 := fuaBuf0 d @ rest\<rparr>)
               });
        if end then Some ([fuaBuf0 d1], d1\<lparr>fuaBuf0 := []\<rparr>)
        else Some ([], d1)
      })"

definition Depacketize0 ::
  "H264Depacketizer0 \<Rightarrow> byte list \<Rightarrow> (byte list list \<times> H264Depacketizer0) option" where
  "Depacketize0 d payload =
     (if length payload < 1 then Some ([], d)
      else do {
        b0 \<leftarrow> index payload 0;
        let naluType = b0 AND 0x1f;
        if 1 \<le> naluType \<and> naluType \<le> 23 then Some ([payload], d)
        else if naluType = 24 then do {
          nalus \<leftarrow> depacketizeSTAPA0 payload;
          Some (nalus, d)
        }
        else if naluType = 28 then depacketizeFUA0 d payload
        else Some ([], d)
      })"

section \<open>The signaling client\<close>

subsection \<open>Payloads, the message envelope and the ticket\<close>

record SDPPayload =
  Type :: string
  SDP :: string

record ICECandidatePayload =
  SDPMid :: string
  SDPMLineIndex :: int
  Candidate :: string

text \<open>
  The fields of \<^verbatim>\<open>domain.Ticket\<close> that the signaling client reads when it builds a
  frame; the other fields of the struct are not read by the functions modelled here.
\<close>

record Ticket =
  TraceID :: string
  GroupID :: string
  ID :: string
  AccessToken :: string

text \<open>
  The struct \<^verbatim>\<open>message\<close>, field by field. \<^verbatim>\<open>Code\<close> is a pointer to an integer: \<open>None\<close>
  is the nil pointer.
\<close>

record message =
  Method :: string
  Code :: "int option"
  Message :: string
  ClientType :: string
  ClientID :: string
  Status :: string
  AccessToken :: string
  ID :: string
  Role :: string
  Name :: string
  Group :: string
  TraceID :: string
  RecipientClientID :: string
  SenderClientID :: string
  SessionID :: string
  MessageType :: string
  MessagePayload :: string
  Mode :: string
  ViewerType :: string
  Resolution :: string
  Version :: string
  Timestamp :: int
  Reason :: int

text \<open>The zero value of \<^verbatim>\<open>message\<close>: what a struct literal leaves in the fields it omits.\<close>

definition zero_message :: message where
  "zero_message = \<lparr>Method = [], Code = None, Message = [], ClientType = [], ClientID = [],
     Status = [], AccessToken = [], ID = [], Role = [], Name = [], Group = [], TraceID = [],
     RecipientClientID = [], SenderClientID = [], SessionID = [], MessageType = [],
     MessagePayload = [], Mode = [], ViewerType = [], Resolution = [], Version = [],
     Timestamp = 0, Reason = 0\<rparr>"

text \<open>
  The functions of \<^verbatim>\<open>encoding/json\<close> and \<^verbatim>\<open>encoding/base64\<close> that the client calls are
  not part of the repository; they are parameters. A decoder returns \<open>None\<close> where the Go
  function returns an error. \<^verbatim>\<open>SendSDPOffer\<close> and \<^verbatim>\<open>SendICECandidate\<close> discard the error
  of \<^verbatim>\<open>json.Marshal\<close> on the payload, so those two encoders are total here.
\<close>

record encoding =
  json_Marshal_message :: "message \<Rightarrow> string option"
  json_Marshal_SDP :: "SDPPayload \<Rightarrow> string"
  json_Marshal_ICE :: "ICECandidatePayload \<Rightarrow> string"
  json_Unmarshal_message :: "string \<Rightarrow> message option"
  json_Unmarshal_SDP :: "string \<Rightarrow> SDPPayload option"
  json_Unmarshal_ICE :: "string \<Rightarrow> ICECandidatePayload option"
  base64_EncodeToString :: "string \<Rightarrow> string"
  base64_DecodeString :: "string \<Rightarrow> string option"

text \<open>
  Of the struct \<^verbatim>\<open>Client\<close>, the fields that hold data; the connection, the handler, the
  mutex and the \<^verbatim>\<open>closed\<close> channel are what the functions below act on.
\<close>

record Client =
  ticket :: Ticket
  serial :: string
  sessionID :: string

subsection \<open>Sending\<close>

text \<open>What the client writes to the socket.\<close>

datatype socket_write = WriteMessage string

text \<open>
  \<^verbatim>\<open>sendJSON\<close>: a marshalling error is logged and nothing is written; a write error is
  logged.
\<close>

definition sendJSON :: "encoding \<Rightarrow> message \<Rightarrow> socket_write list" where
  "sendJSON lib msg =
     (case json_Marshal_message lib msg of
        None \<Rightarrow> []
      | Some data \<Rightarrow> [WriteMessage data])"

definition SendJoinLive :: "encoding \<Rightarrow> Client \<Rightarrow> socket_write list" where
  "SendJoinLive lib c =
     sendJSON lib (zero_message\<lparr>Method := ''JOIN_LIVE'', Role := ''viewer'',
       Name := Ticket.ID (ticket c), Group := GroupID (ticket c),
       TraceID := Ticket.TraceID (ticket c), RecipientClientID := serial c\<rparr>)"

definition SendSDPOffer :: "encoding \<Rightarrow> Client \<Rightarrow> string \<Rightarrow> socket_write list" where
  "SendSDPOffer lib c sdp =
     (let payload = \<lparr>Type = ''offer'', SDP = sdp\<rparr>;
          payloadJSON = json_Marshal_SDP lib payload;
          encoded = base64_EncodeToString lib payloadJSON
      in sendJSON lib (zero_message\<lparr>Method := ''TRANSMIT'', MessageType := ''SDP_OFFER'',
           MessagePayload := encoded, Mode := ''vicoo'', RecipientClientID := serial c,
           SenderClientID := Ticket.ID (ticket c), SessionID := sessionID c,
           ViewerType := ''a4x_sdk'', Resolution := ''1280x720'', Version := ''0.0.1''\<rparr>))"

definition SendICECandidate ::
  "encoding \<Rightarrow> Client \<Rightarrow> string \<Rightarrow> int \<Rightarrow> string \<Rightarrow> socket_write list" where
  "SendICECandidate lib c sdpMid sdpMLineIndex candidate =
     (let payload = \<lparr>SDPMid = sdpMid, SDPMLineIndex = sdpMLineIndex, Candidate = candidate\<rparr>;
          payloadJSON = json_Marshal_ICE lib payload;
          encoded = base64_EncodeToString lib payloadJSON
      in sendJSON lib (zero_message\<lparr>Method := ''TRANSMIT'', MessageType := ''ICE_CANDIDATE'',
           MessagePayload := encoded, RecipientClientID := serial c,
           SenderClientID := Ticket.ID (ticket c), SessionID := sessionID c,
           Version := ''0.0.1''\<rparr>))"

subsection \<open>Receiving\<close>

text \<open>The calls that \<^verbatim>\<open>dispatch\<close> makes on the \<^verbatim>\<open>domain.Handler\<close>.\<close>

datatype handler_call =
    OnAuthSuccess
  | OnPeerIn
  | OnPeerOut
  | OnSDPAnswer SDPPayload
  | OnRemoteICECandidate ICECandidatePayload

text \<open>
  \<^verbatim>\<open>dispatch\<close> returns the handler calls it makes, in order (at most one). The switch on
  the method compares strings case by case; the inner switch on the message type has no
  default case.
\<close>

definition dispatch :: "encoding \<Rightarrow> message \<Rightarrow> handler_call list" where
  "dispatch lib msg =
     (if Method msg = ''AUTH_RESPONSE'' then
        (if Code msg \<noteq> None \<and> the (Code msg) = 0 then [OnAuthSuccess] else [])
      else if Method msg = ''JOIN_LIVE_RESPONSE'' then []
      else if Method msg = ''PEER_IN'' then [OnPeerIn]
      else if Method msg = ''PEER_OUT'' then [OnPeerOut]
      else if Method msg = ''TRANSMIT'' then
        (if MessageType msg = ''SDP_ANSWER'' then
           (case base64_DecodeString lib (MessagePayload msg) of
              None \<Rightarrow> []
            | Some decoded \<Rightarrow>
               (case json_Unmarshal_SDP lib decoded of
                  None \<Rightarrow> []
                | Some sdp \<Rightarrow> [OnSDPAnswer sdp]))
         else if MessageType msg = ''ICE_CANDIDATE'' then
           (case base64_DecodeString lib (MessagePayload msg) of
              None \<Rightarrow> []
            | Some decoded \<Rightarrow>
               (case json_Unmarshal_ICE lib decoded of
                  None \<Rightarrow> []
                | Some candidate \<Rightarrow> [OnRemoteICECandidate candidate]))
         else [])
      else if Method msg = ''TRANSMIT_RESPONSE'' \<or> Method msg = ''RESPONSE'' then []
      else [])"

text \<open>
  One turn of the loop in \<^verbatim>\<open>readLoop\<close> sees the \<^verbatim>\<open>closed\<close> channel closed, or a read
  error, or a frame. The loop is run over the turns it gets; it returns at the first of
  the two former, and goes on to the next turn after a frame, whether the frame was
  dispatched or could not be unmarshalled. The result is the handler calls made, in order.
\<close>

datatype turn = SeenClosed | ReadError | Frame string

fun readLoop :: "encoding \<Rightarrow> turn list \<Rightarrow> handler_call list" where
  "readLoop lib [] = []"
| "readLoop lib (SeenClosed # turns) = []"
| "readLoop lib (ReadError # turns) = []"
| "readLoop lib (Frame data # turns) =
     (case json_Unmarshal_message lib data of
        None \<Rightarrow> readLoop lib turns
      | Some msg \<Rightarrow> dispatch lib msg @ readLoop lib turns)"

text \<open>
  The frames that the dispatch policy does not handle: a method outside the dispatched
  set, a \<^verbatim>\<open>TRANSMIT\<close> with a message type other than the two handled, or a
  \<^verbatim>\<open>TRANSMIT\<close> whose payload fails base64 or JSON decoding.
\<close>

definition dispatched_methods :: "string set" where
  "dispatched_methods = {''AUTH_RESPONSE'', ''JOIN_LIVE_RESPONSE'', ''PEER_IN'', ''PEER_OUT'',
     ''TRANSMIT'', ''TRANSMIT_RESPONSE'', ''RESPONSE''}"

definition payload_undecodable :: "encoding \<Rightarrow> message \<Rightarrow> bool" where
  "payload_undecodable lib msg \<longleftrightarrow>
     (case base64_DecodeString lib (MessagePayload msg) of
        None \<Rightarrow> True
      | Some decoded \<Rightarrow>
          (MessageType msg = ''SDP_ANSWER'' \<and> json_Unmarshal_SDP lib decoded = None) \<or>
          (MessageType msg = ''ICE_CANDIDATE'' \<and> json_Unmarshal_ICE lib decoded = None))"

definition unhandled :: "encoding \<Rightarrow> message \<Rightarrow> bool" where
  "unhandled lib msg \<longleftrightarrow>
     Method msg \<notin> dispatched_methods \<or>
     (Method msg = ''TRANSMIT'' \<and>
        (MessageType msg \<notin> {''SDP_ANSWER'', ''ICE_CANDIDATE''} \<or> payload_undecodable lib msg))"

text \<open>
  An instance of the library functions for examples: base64 is the identity, and the JSON
  decoder of frames knows three texts.
\<close>

definition example_encoding :: encoding where
  "example_encoding = \<lparr>
     json_Marshal_message = (\<lambda>msg. Some (Method msg)),
     json_Marshal_SDP = SDP,
     json_Marshal_ICE = Candidate,
     json_Unmarshal_message = (\<lambda>data.
        if data = ''peer-in'' then Some (zero_message\<lparr>Method := ''PEER_IN''\<rparr>)
        else if data = ''ping'' then Some (zero_message\<lparr>Method := ''PING''\<rparr>)
        else if data = ''bye'' then Some (zero_message\<lparr>Method := ''PEER_OUT''\<rparr>)
        else None),
     json_Unmarshal_SDP = (\<lambda>data. None),
     json_Unmarshal_ICE = (\<lambda>data. None),
     base64_EncodeToString = (\<lambda>data. data),
     base64_DecodeString = Some\<rparr>"

section \<open>The peer and the remote-description gate\<close>

text \<open>
  The result of a call that may panic or block: a run-time panic ends the process, a
  blocked call has not returned.
\<close>

datatype 'a go = Panic | Blocked | Return 'a

text \<open>
  The channel \<^verbatim>\<open>remoteDescSet\<close> (\<^verbatim>\<open>chan struct{}\<close>) is never sent on: it is open or
  closed. Closing a closed channel panics; a receive from an open channel on which nobody
  sends blocks, a receive from a closed channel returns at once.
\<close>

datatype chan = Open | Closed

fun close_chan :: "chan \<Rightarrow> chan option" where
  "close_chan Open = Some Closed"
| "close_chan Closed = None"

fun can_receive :: "chan \<Rightarrow> bool" where
  "can_receive Open = False"
| "can_receive Closed = True"

text \<open>
  The peer connection of the WebRTC engine is not part of the repository. The field
  \<^verbatim>\<open>pc\<close> is modelled by the calls made on the connection so far, oldest first, each with
  the error the engine answered (\<open>None\<close> for nil); that answer is a parameter of the
  method that makes the call.
\<close>

record ICECandidateInit =
  init_Candidate :: string
  init_SDPMid :: string
  init_SDPMLineIndex :: uint16

datatype pc_call =
    PC_SetRemoteDescription string "string option"
  | PC_AddICECandidate ICECandidateInit "string option"

record Peer =
  pc :: "pc_call list"
  remoteDescSet :: chan

definition NewPeer :: Peer where
  "NewPeer = \<lparr>pc = [], remoteDescSet = Open\<rparr>"

text \<open>
  A Go \<^verbatim>\<open>error\<close> result is an optional message. When \<^verbatim>\<open>SetRemoteDescription\<close> panics,
  the call on the connection has been made already; the process ends there.
\<close>

definition SetRemoteDescription ::
  "Peer \<Rightarrow> SDPPayload \<Rightarrow> string option \<Rightarrow> (string option \<times> Peer) go" where
  "SetRemoteDescription p sdp engine_err =
     (let p1 = p\<lparr>pc := pc p @ [PC_SetRemoteDescription (SDP sdp) engine_err]\<rparr>
      in case engine_err of
           Some err \<Rightarrow> Return (Some (''set remote description: '' @ err), p1)
         | None \<Rightarrow>
            (case close_chan (remoteDescSet p1) of
               None \<Rightarrow> Panic
             | Some ch \<Rightarrow> Return (None, p1\<lparr>remoteDescSet := ch\<rparr>)))"

definition AddRemoteICECandidate ::
  "Peer \<Rightarrow> ICECandidatePayload \<Rightarrow> string option \<Rightarrow> (string option \<times> Peer) go" where
  "AddRemoteICECandidate p candidate engine_err =
     (if \<not> can_receive (remoteDescSet p) then Blocked
      else
        (let sdpMLineIndex = (word_of_int (SDPMLineIndex candidate) :: uint16);
             init = \<lparr>init_Candidate = Candidate candidate, init_SDPMid = SDPMid candidate,
                     init_SDPMLineIndex = sdpMLineIndex\<rparr>;
             p1 = p\<lparr>pc := pc p @ [PC_AddICECandidate init engine_err]\<rparr>
         in case engine_err of
              Some err \<Rightarrow> Return (Some (''add ice candidate: '' @ err), p1)
            | None \<Rightarrow> Return (None, p1)))"

section \<open>The viewer\<close>

text \<open>
  The viewer calls the signaler through the interface \<^verbatim>\<open>domain.Signaler\<close>; these are the
  calls it can make from its handlers.
\<close>

datatype signaler_call =
    Call_SendJoinLive
  | Call_SendSDPOffer string

text \<open>A handler returns, or ends the process through \<^verbatim>\<open>log.Fatalf\<close>.\<close>

datatype 'a handled = Fatal | Done 'a

definition Viewer_OnAuthSuccess :: "signaler_call list handled" where
  "Viewer_OnAuthSuccess = Done [Call_SendJoinLive]"

text \<open>
  \<^verbatim>\<open>OnPeerIn\<close>: the pair returned by \<^verbatim>\<open>v.peer.CreateOffer()\<close>, the text and the error, is
  the parameter.
\<close>

definition Viewer_OnPeerIn :: "string \<times> string option \<Rightarrow> signaler_call list handled" where
  "Viewer_OnPeerIn offer =
     (case offer of
        (sdp, Some err) \<Rightarrow> Fatal
      | (sdp, None) \<Rightarrow> Done [Call_SendSDPOffer sdp])"

text \<open>The client as the signaler behind the interface.\<close>

fun Client_call :: "encoding \<Rightarrow> Client \<Rightarrow> signaler_call \<Rightarrow> socket_write list" where
  "Client_call lib c Call_SendJoinLive = SendJoinLive lib c"
| "Client_call lib c (Call_SendSDPOffer sdp) = SendSDPOffer lib c sdp"

subsection \<open>A session: answers, remote candidates and the goroutines that apply them\<close>

text \<open>
  \<^verbatim>\<open>OnSDPAnswer\<close> calls \<^verbatim>\<open>SetRemoteDescription\<close> and logs its error.
  \<^verbatim>\<open>OnRemoteICECandidate\<close> starts a goroutine that calls \<^verbatim>\<open>AddRemoteICECandidate\<close>; the
  goroutine stays parked while that call is blocked. The state of a session is the peer,
  the candidates of the goroutines that have not yet returned, and whether the process has
  panicked.
\<close>

record session =
  peer :: Peer
  parked :: "ICECandidatePayload list"
  panicked :: bool

definition new_session :: session where
  "new_session = \<lparr>peer = NewPeer, parked = [], panicked = False\<rparr>"

text \<open>
  What happens in a session, in the order it happens: the handler \<^verbatim>\<open>OnSDPAnswer\<close> runs
  (with the engine's answer to the call it makes), the handler \<^verbatim>\<open>OnRemoteICECandidate\<close>
  runs, or the scheduler runs the \<open>i\<close>-th parked goroutine (with the engine's answer to
  the call it makes, if it gets that far). Every interleaving of the handlers and the
  goroutines is a list of such events.
\<close>

datatype event =
    Answer SDPPayload "string option"
  | RemoteCandidate ICECandidatePayload
  | Run nat "string option"

definition Viewer_OnSDPAnswer :: "session \<Rightarrow> SDPPayload \<Rightarrow> string option \<Rightarrow> session" where
  "Viewer_OnSDPAnswer s sdp engine_err =
     (case SetRemoteDescription (peer s) sdp engine_err of
        Panic \<Rightarrow> s\<lparr>panicked := True\<rparr>
      | Blocked \<Rightarrow> s
      | Return (err, p) \<Rightarrow> s\<lparr>peer := p\<rparr>)"

definition Viewer_OnRemoteICECandidate :: "session \<Rightarrow> ICECandidatePayload \<Rightarrow> session" where
  "Viewer_OnRemoteICECandidate s candidate = s\<lparr>parked := parked s @ [candidate]\<rparr>"

definition run_goroutine :: "session \<Rightarrow> nat \<Rightarrow> string option \<Rightarrow> session" where
  "run_goroutine s i engine_err =
     (if i < length (parked s) then
        (case AddRemoteICECandidate (peer s) (parked s ! i) engine_err of
           Panic \<Rightarrow> s\<lparr>panicked := True\<rparr>
         | Blocked \<Rightarrow> s
         | Return (err, p) \<Rightarrow> s\<lparr>peer := p, parked := take i (parked s) @ drop (Suc i) (parked s)\<rparr>)
      else s)"

fun step :: "session \<Rightarrow> event \<Rightarrow> session" where
  "step s ev =
     (if panicked s then s
      else case ev of
             Answer sdp engine_err \<Rightarrow> Viewer_OnSDPAnswer s sdp engine_err
           | RemoteCandidate candidate \<Rightarrow> Viewer_OnRemoteICECandidate s candidate
           | Run i engine_err \<Rightarrow> run_goroutine s i engine_err)"

definition run_session :: "event list \<Rightarrow> session" where
  "run_session evs = foldl step new_session evs"

text \<open>
  No candidate is applied before a remote description: reading the calls on the
  connection from the oldest, an accepted \<^verbatim>\<open>SetRemoteDescription\<close> comes before any
  \<^verbatim>\<open>AddICECandidate\<close>.
\<close>

fun description_first :: "pc_call list \<Rightarrow> bool" where
  "description_first [] = True"
| "description_first (PC_SetRemoteDescription sdp None # calls) = True"
| "description_first (PC_SetRemoteDescription sdp (Some err) # calls) = description_first calls"
| "description_first (PC_AddICECandidate init engine_err # calls) = False"

text \<open>The candidates handed to \<^verbatim>\<open>OnRemoteICECandidate\<close>, and those applied to the connection.\<close>

fun received :: "event list \<Rightarrow> ICECandidatePayload list" where
  "received [] = []"
| "received (RemoteCandidate candidate # evs) = candidate # received evs"
| "received (ev # evs) = received evs"

fun applied :: "pc_call list \<Rightarrow> ICECandidateInit list" where
  "applied [] = []"
| "applied (PC_AddICECandidate init engine_err # calls) = init # applied calls"
| "applied (call # calls) = applied calls"

definition init_of :: "ICECandidatePayload \<Rightarrow> ICECandidateInit" where
  "init_of candidate = \<lparr>init_Candidate = Candidate candidate, init_SDPMid = SDPMid candidate,
     init_SDPMLineIndex = word_of_int (SDPMLineIndex candidate)\<rparr>"

text \<open>
  The invariant of a session: the calls on the connection are in the order above, and the
  gate is closed exactly when a \<^verbatim>\<open>SetRemoteDescription\<close> has been accepted.
\<close>

definition gate_inv :: "session \<Rightarrow> bool" where
  "gate_inv s \<longleftrightarrow>
     description_first (pc (peer s)) \<and>
     (remoteDescSet (peer s) = Closed \<longleftrightarrow>
        (\<exists>sdp. PC_SetRemoteDescription sdp None \<in> set (pc (peer s))))"

text \<open>
  Every candidate received is accounted for: it is the candidate of a parked goroutine,
  or it has been handed to \<^verbatim>\<open>AddICECandidate\<close>.
\<close>

definition accounted :: "ICECandidatePayload list \<Rightarrow> session \<Rightarrow> bool" where
  "accounted cands s \<longleftrightarrow>
     image_mset init_of (mset cands)
       = image_mset init_of (mset (parked s)) + mset (applied (pc (peer s)))"

section \<open>Properties of the depacketizer\<close>

subsection \<open>Reading sizes, indexing and the STAP-A loop\<close>

lemma unat_byte_less: "unat (b::byte) < 256"
  using unsigned_less [of b, where 'a = nat] by simp

lemma push_bit_8_disjoint: 
  fixes a b :: nat
  assumes "b < 256"
  shows "push_bit 8 a AND b = 0"
proof -
  from assms have "take_bit 8 b = b" by (simp add: take_bit_nat_eq_self)
  moreover have "push_bit 8 a AND take_bit 8 b = 0"
    by (rule bit_eqI) (auto simp add: bit_and_iff bit_push_bit_iff bit_take_bit_iff)
  ultimately show ?thesis by simp
qed

lemma size_eq: "push_bit 8 (unat (b0::byte)) OR unat (b1::byte) = 256 * unat b0 + unat b1"
  using disjunctive_add_eq_or [OF push_bit_8_disjoint [OF unat_byte_less [of b1], of "unat b0"]]
  by (simp add: push_bit_eq_mult)

lemma STAPA_loop_step:
  assumes "offset + 2 \<le> length payload"
  shows "STAPA_loop payload offset nalus =
    (let size = 256 * unat (payload ! offset) + unat (payload ! (offset + 1))
     in if size = 0 \<or> length payload < offset + 2 + size then Some nalus
        else STAPA_loop payload (offset + 2 + size)
               (nalus @ [take size (drop (offset + 2) payload)]))"
proof -
  have i0: "index payload offset = Some (payload ! offset)"
    and i1: "index payload (Suc offset) = Some (payload ! Suc offset)"
    using assms by (simp_all add: index_def)
  show ?thesis
    using assms
    by (subst STAPA_loop.simps) (simp add: i0 i1 size_eq Let_def slice_def)
qed

lemma STAPA_loop_done: "\<not> offset + 2 \<le> length payload \<Longrightarrow> STAPA_loop payload offset nalus = Some nalus"
  by (subst STAPA_loop.simps) simp

lemma entry_size:
  assumes "length u < 65536"
  shows "256 * unat (of_nat (length u div 256) :: byte) + unat (of_nat (length u mod 256) :: byte) = length u"
  using assms by (simp add: unat_of_nat)

lemma STAPA_loop_parses:
  assumes "\<forall>u \<in> set units. 0 < length u \<and> length u < 65536" and "stops rest"
  shows "STAPA_loop (pre @ concat (map stapa_entry units) @ rest) (length pre) acc = Some (acc @ units)"
  using assms(1)
proof (induction units arbitrary: pre acc)
  case Nil
  show ?case
  proof (cases "length rest < 2")
    case True
    then show ?thesis by (simp add: STAPA_loop_done)
  next
    case False
    then have le: "length pre + 2 \<le> length (pre @ rest)" by simp
    have "(pre @ rest) ! length pre = rest ! 0" "(pre @ rest) ! (length pre + 1) = rest ! 1"
      by (simp_all add: nth_append)
    with False \<open>stops rest\<close> show ?thesis
      by (auto simp add: STAPA_loop_step [OF le] stops_def declared_size_def Let_def)
  qed
next
  case (Cons u us)
  let ?payload = "pre @ concat (map stapa_entry (u # us)) @ rest"
  from Cons.prems have u: "0 < length u" "length u < 65536" by simp_all
  have le: "length pre + 2 \<le> length ?payload" by (simp add: stapa_entry_def)
  have b0: "?payload ! length pre = of_nat (length u div 256)"
    and b1: "?payload ! (length pre + 1) = of_nat (length u mod 256)"
    by (simp_all add: nth_append stapa_entry_def)
  have sz: "256 * unat (?payload ! length pre) + unat (?payload ! (length pre + 1)) = length u"
    unfolding b0 b1 by (rule entry_size [OF u(2)])
  have tk: "take (length u) (drop (length pre + 2) ?payload) = u"
    by (simp add: stapa_entry_def)
  have fits: "\<not> length ?payload < length pre + 2 + length u"
    by (simp add: stapa_entry_def)
  have step: "STAPA_loop ?payload (length pre) acc
      = STAPA_loop ?payload (length pre + 2 + length u) (acc @ [u])"
    using u(1) fits by (simp only: STAPA_loop_step [OF le] sz Let_def tk) simp
  have "STAPA_loop ((pre @ stapa_entry u) @ concat (map stapa_entry us) @ rest)
      (length (pre @ stapa_entry u)) (acc @ [u]) = Some ((acc @ [u]) @ us)"
    using Cons.prems by (intro Cons.IH) simp
  moreover have "length (pre @ stapa_entry u) = length pre + 2 + length u"
    by (simp add: stapa_entry_def)
  ultimately have "STAPA_loop ?payload (length pre + 2 + length u) (acc @ [u]) = Some (acc @ u # us)"
    by simp
  with step show ?case by simp
qed

lemma declared_size_less: "declared_size body < 65536"
  using unat_byte_less [of "body ! 0"] unat_byte_less [of "body ! 1"]
  by (simp add: declared_size_def)

lemma declared_size_div: "of_nat (declared_size body div 256) = body ! 0"
proof -
  have "declared_size body div 256 = unat (body ! 0)"
    using unat_byte_less [of "body ! 1"] by (simp add: declared_size_def)
  then show ?thesis by simp
qed

lemma declared_size_mod: "of_nat (declared_size body mod 256) = body ! 1"
proof -
  have "declared_size body mod 256 = unat (body ! 1)"
    using unat_byte_less [of "body ! 1"] by (simp add: declared_size_def)
  then show ?thesis by simp
qed

lemma entry_split:
  assumes "2 + declared_size body \<le> length body"
  shows "body = stapa_entry (take (declared_size body) (drop 2 body)) @ drop (2 + declared_size body) body"
proof -
  obtain x y zs where body: "body = x # y # zs"
    using assms by (cases body; cases "tl body") auto
  have l: "length (take (declared_size body) (drop 2 body)) = declared_size body"
    using assms by simp
  have "stapa_entry (take (declared_size body) (drop 2 body))
      = [body ! 0, body ! 1] @ take (declared_size body) (drop 2 body)"
    unfolding stapa_entry_def l declared_size_div declared_size_mod ..
  also have "\<dots> @ drop (2 + declared_size body) body = [body ! 0, body ! 1] @ drop 2 body"
  proof -
    have "drop (2 + declared_size body) body = drop (declared_size body) (drop 2 body)"
      by (simp add: add.commute)
    then show ?thesis by (simp only: append_assoc append_take_drop_id)
  qed
  also have "\<dots> = body" by (simp add: body)
  finally show ?thesis by simp
qed

lemma stapa_decompose:
  "\<exists>units rest. body = concat (map stapa_entry units) @ rest \<and>
     (\<forall>u \<in> set units. 0 < length u \<and> length u < 65536) \<and> stops rest"
proof (induction body rule: length_induct)
  case (1 body)
  show ?case
  proof (cases "stops body")
    case True
    have "body = concat (map stapa_entry []) @ body" by simp
    moreover have "\<forall>u \<in> set ([] :: byte list list). 0 < length u \<and> length u < 65536" by simp
    ultimately show ?thesis using True by blast
  next
    case False
    define n where "n = declared_size body"
    from False have n0: "0 < n" and fit: "2 + n \<le> length body"
      by (simp_all add: stops_def n_def)
    define u where "u = take n (drop 2 body)"
    define body' where "body' = drop (2 + n) body"
    have lu: "length u = n" using fit by (simp add: u_def)
    have nlt: "n < 65536" unfolding n_def by (rule declared_size_less)
    have split: "body = stapa_entry u @ body'"
      unfolding u_def body'_def n_def by (rule entry_split) (use fit n_def in simp)
    have "length body' < length body" using fit by (simp add: body'_def)
    with "1.IH" obtain units rest where
      IH: "body' = concat (map stapa_entry units) @ rest"
        "\<forall>u \<in> set units. 0 < length u \<and> length u < 65536" "stops rest"
      by blast
    have "body = concat (map stapa_entry (u # units)) @ rest"
      using split IH(1) by simp
    moreover have "\<forall>v \<in> set (u # units). 0 < length v \<and> length v < 65536"
      using IH(2) lu n0 nlt by auto
    ultimately show ?thesis using IH(3) by blast
  qed
qed

subsection \<open>The cases of a FU-A fragment\<close>

lemma STAPA_loop_returns: "\<exists>r. STAPA_loop payload offset nalus = Some r"
proof (induction payload offset nalus rule: STAPA_loop.induct)
  case (1 payload offset nalus)
  show ?case
  proof (cases "offset + 2 \<le> length payload")
    case False
    then show ?thesis by (simp add: STAPA_loop_done)
  next
    case True
    define size where "size = 256 * unat (payload ! offset) + unat (payload ! (offset + 1))"
    show ?thesis
    proof (cases "size = 0 \<or> length payload < offset + 2 + size")
      case stop: True
      then show ?thesis
        unfolding STAPA_loop_step [OF True] Let_def size_def [symmetric] by simp
    next
      case go: False
      have i0: "index payload offset = Some (payload ! offset)"
        and i1: "index payload (offset + 1) = Some (payload ! (offset + 1))"
        using True by (simp_all add: index_def)
      have sz: "push_bit 8 (unat (payload ! offset)) OR unat (payload ! (offset + 1)) = size"
        by (simp add: size_eq size_def)
      have sl: "slice payload (offset + 2) (offset + 2 + size)
          = Some (take size (drop (offset + 2) payload))"
        using go by (simp add: slice_def)
      have "\<exists>r. STAPA_loop payload (offset + 2 + size)
                 (nalus @ [take size (drop (offset + 2) payload)]) = Some r"
        using go by (intro "1.IH" [OF True i0 i1 sz [symmetric] refl _ _ sl]) simp_all
      with go show ?thesis
        unfolding STAPA_loop_step [OF True] Let_def size_def [symmetric] by simp
    qed
  qed
qed

lemma depacketizeFUA_fragment:
  assumes "2 \<le> length payload"
  shows "depacketizeFUA d s payload =
    (if payload ! 1 AND 0x80 \<noteq> 0 then
       (if payload ! 1 AND 0x40 \<noteq> 0
        then Some ([NAL_header payload # drop 2 payload],
                   d\<lparr>fuaBuf := [], fuaStarted := False, expectedSeq := s + 1\<rparr>)
        else Some ([], d\<lparr>fuaBuf := NAL_header payload # drop 2 payload, fuaStarted := True,
                          expectedSeq := s + 1\<rparr>))
     else if \<not> fuaStarted d then Some ([], d)
     else if s \<noteq> expectedSeq d then Some ([], d\<lparr>fuaBuf := [], fuaStarted := False\<rparr>)
     else if payload ! 1 AND 0x40 \<noteq> 0
       then Some ([fuaBuf d @ drop 2 payload],
                  d\<lparr>fuaBuf := [], fuaStarted := False, expectedSeq := s + 1\<rparr>)
       else Some ([], d\<lparr>fuaBuf := fuaBuf d @ drop 2 payload, expectedSeq := s + 1\<rparr>))"
proof -
  have "index payload 0 = Some (payload ! 0)" "index payload 1 = Some (payload ! 1)"
    "slice_from payload 2 = Some (drop 2 payload)"
    using assms by (auto simp add: index_def slice_from_def slice_def)
  moreover have "\<not> length payload < 2" using assms by simp
  ultimately show ?thesis
    by (simp add: depacketizeFUA_def Let_def NAL_header_def)
qed

lemma Depacketize_FUA:
  assumes "is_FUA payload"
  shows "Depacketize d s payload = depacketizeFUA d s payload"
proof -
  from assms have "index payload 0 = Some (payload ! 0)" "\<not> length payload < 1"
    "payload ! 0 AND 0x1f = 28"
    by (auto simp add: index_def is_FUA_def)
  then show ?thesis by (simp add: Depacketize_def Let_def)
qed

lemma Depacketize_start:
  assumes "is_FUA p" "FU_start p" "\<not> FU_end p"
  shows "Depacketize d s p
    = Some ([], d\<lparr>fuaBuf := NAL_header p # drop 2 p, fuaStarted := True, expectedSeq := s + 1\<rparr>)"
  using assms
  by (simp add: Depacketize_FUA depacketizeFUA_fragment is_FUA_def FU_start_def FU_end_def)

lemma Depacketize_start_end:
  assumes "is_FUA p" "FU_start p" "FU_end p"
  shows "Depacketize d s p
    = Some ([NAL_header p # drop 2 p], d\<lparr>fuaBuf := [], fuaStarted := False, expectedSeq := s + 1\<rparr>)"
  using assms
  by (simp add: Depacketize_FUA depacketizeFUA_fragment is_FUA_def FU_start_def FU_end_def)

lemma Depacketize_orphan:
  assumes "non_start_fragment p" "\<not> fuaStarted d"
  shows "Depacketize d s p = Some ([], d)"
  using assms
  by (simp add: Depacketize_FUA depacketizeFUA_fragment non_start_fragment_def is_FUA_def
      FU_start_def)

lemma Depacketize_gap:
  assumes "non_start_fragment p" "fuaStarted d" "s \<noteq> expectedSeq d"
  shows "Depacketize d s p = Some ([], d\<lparr>fuaBuf := [], fuaStarted := False\<rparr>)"
  using assms
  by (simp add: Depacketize_FUA depacketizeFUA_fragment non_start_fragment_def is_FUA_def
      FU_start_def)

lemma Depacketize_middle:
  assumes "non_start_fragment p" "\<not> FU_end p" "fuaStarted d" "s = expectedSeq d"
  shows "Depacketize d s p = Some ([], d\<lparr>fuaBuf := fuaBuf d @ drop 2 p, expectedSeq := s + 1\<rparr>)"
  using assms
  by (simp add: Depacketize_FUA depacketizeFUA_fragment non_start_fragment_def is_FUA_def
      FU_start_def FU_end_def)

lemma Depacketize_end:
  assumes "non_start_fragment p" "FU_end p" "fuaStarted d" "s = expectedSeq d"
  shows "Depacketize d s p
    = Some ([fuaBuf d @ drop 2 p], d\<lparr>fuaBuf := [], fuaStarted := False, expectedSeq := s + 1\<rparr>)"
  using assms
  by (simp add: Depacketize_FUA depacketizeFUA_fragment non_start_fragment_def is_FUA_def
      FU_start_def FU_end_def)

subsection \<open>Totality, unchanged state and chains of fragments\<close>

lemma depacketizeFUA_returns: "\<exists>r d'. depacketizeFUA d s payload = Some (r, d')"
proof (cases "2 \<le> length payload")
  case True
  show ?thesis unfolding depacketizeFUA_fragment [OF True] by simp
next
  case False
  then show ?thesis by (simp add: depacketizeFUA_def)
qed

lemma Depacketize_returns: "\<exists>r d'. Depacketize d s payload = Some (r, d')"
proof (cases "length payload < 1")
  case True
  then show ?thesis by (simp add: Depacketize_def)
next
  case False
  then have i0: "index payload 0 = Some (payload ! 0)"
    by (auto simp add: index_def)
  obtain ns where ns: "depacketizeSTAPA payload = Some ns"
    using STAPA_loop_returns [of payload 1 "[]"] by (auto simp: depacketizeSTAPA_def)
  obtain r d' where r: "depacketizeFUA d s payload = Some (r, d')"
    using depacketizeFUA_returns [of d s payload] by blast
  show ?thesis using False i0 ns r
    by (simp add: Depacketize_def Let_def)
qed

lemma Depacketize_empty: "Depacketize d s [] = Some ([], d)"
  by (simp add: Depacketize_def)

lemma Depacketize_unsupported:
  assumes "payload \<noteq> []" "\<not> (1 \<le> payload ! 0 AND 0x1f \<and> payload ! 0 AND 0x1f \<le> 23)"
    "payload ! 0 AND 0x1f \<noteq> 24" "payload ! 0 AND 0x1f \<noteq> 28"
  shows "Depacketize d s payload = Some ([], d)"
proof -
  from assms(1) have "index payload 0 = Some (payload ! 0)" "\<not> length payload < 1"
    by (auto simp add: index_def)
  with assms(2-) show ?thesis by (simp add: Depacketize_def Let_def)
qed

lemma Depacketize_short_FUA:
  assumes "length payload = 1" "payload ! 0 AND 0x1f = 28"
  shows "Depacketize d s payload = Some ([], d)"
proof -
  from assms(1) have "index payload 0 = Some (payload ! 0)" "\<not> length payload < 1"
    by (auto simp add: index_def)
  with assms show ?thesis by (simp add: Depacketize_def Let_def depacketizeFUA_def)
qed

lemma Depacketize_single:
  assumes "payload \<noteq> []" "1 \<le> payload ! 0 AND 0x1f" "payload ! 0 AND 0x1f \<le> 23"
  shows "Depacketize d s payload = Some ([payload], d)"
proof -
  from assms(1) have "index payload 0 = Some (payload ! 0)" "\<not> length payload < 1"
    by (auto simp add: index_def)
  with assms(2-) show ?thesis by (simp add: Depacketize_def Let_def)
qed

lemma Depacketize_STAPA:
  assumes "payload \<noteq> []" "payload ! 0 AND 0x1f = 24"
  shows "Depacketize d s payload = map_option (\<lambda>nalus. (nalus, d)) (depacketizeSTAPA payload)"
proof -
  from assms(1) have "index payload 0 = Some (payload ! 0)" "\<not> length payload < 1"
    by (auto simp add: index_def)
  with assms(2) show ?thesis
    by (cases "depacketizeSTAPA payload") (simp_all add: Depacketize_def Let_def)
qed

lemma Depacketize_frame:
  assumes "payload = [] \<or> payload ! 0 AND 0x1f \<noteq> 28"
  shows "\<exists>r. Depacketize d s payload = Some (r, d)"
proof (cases "payload = []")
  case True
  then show ?thesis by (simp add: Depacketize_empty)
next
  case False
  with assms have t: "payload ! 0 AND 0x1f \<noteq> 28" by simp
  from False have "index payload 0 = Some (payload ! 0)" "\<not> length payload < 1"
    by (auto simp add: index_def)
  moreover obtain ns where "depacketizeSTAPA payload = Some ns"
    using STAPA_loop_returns [of payload 1 "[]"] by (auto simp: depacketizeSTAPA_def)
  ultimately show ?thesis using t by (simp add: Depacketize_def Let_def)
qed

lemma Depacketize_idle:
  assumes "\<not> fuaStarted d" "\<not> (is_FUA p \<and> FU_start p)"
  shows "\<exists>r. Depacketize d s p = Some (r, d) \<and> (is_FUA p \<longrightarrow> r = [])"
proof (cases "is_FUA p")
  case True
  with assms have "non_start_fragment p" by (simp add: non_start_fragment_def)
  then show ?thesis using assms(1) by (simp add: Depacketize_orphan)
next
  case False
  show ?thesis
  proof (cases "p = [] \<or> p ! 0 AND 0x1f \<noteq> 28")
    case True
    then show ?thesis using False Depacketize_frame [of p d s] by simp
  next
    case f: False
    with False have "length p = 1" by (cases p) (auto simp add: is_FUA_def not_le)
    with f False show ?thesis by (simp add: Depacketize_short_FUA)
  qed
qed

lemma DepacketizeAll_idle:
  assumes "\<not> fuaStarted d" "\<forall>pkt \<in> set pkts. \<not> (is_FUA (snd pkt) \<and> FU_start (snd pkt))"
  shows "\<exists>outs. DepacketizeAll d pkts = Some (outs, d) \<and> length outs = length pkts \<and>
           (\<forall>i < length pkts. is_FUA (snd (pkts ! i)) \<longrightarrow> outs ! i = [])"
  using assms(2)
proof (induction pkts)
  case Nil
  then show ?case by simp
next
  case (Cons pkt pkts)
  obtain s p where pkt: "pkt = (s, p)" by (cases pkt)
  from Cons.prems pkt have "\<not> (is_FUA p \<and> FU_start p)" by simp
  with assms(1) obtain r where r: "Depacketize d s p = Some (r, d)" "is_FUA p \<longrightarrow> r = []"
    using Depacketize_idle by blast
  from Cons obtain outs where outs: "DepacketizeAll d pkts = Some (outs, d)"
    "length outs = length pkts" "\<forall>i < length pkts. is_FUA (snd (pkts ! i)) \<longrightarrow> outs ! i = []"
    by auto
  have "DepacketizeAll d (pkt # pkts) = Some (r # outs, d)"
    by (simp add: pkt r(1) outs(1))
  moreover have "\<forall>i < length (pkt # pkts). is_FUA (snd ((pkt # pkts) ! i)) \<longrightarrow> (r # outs) ! i = []"
    using r(2) outs(3) pkt by (auto simp add: nth_Cons split: nat.splits)
  ultimately show ?case using outs(2) by simp
qed

lemma chain_tail_reassembles:
  assumes "chain_tail s pkts" "fuaStarted d" "expectedSeq d = s"
  shows "DepacketizeAll d pkts =
    Some (replicate (length pkts - 1) [] @ [[fuaBuf d @ concat (map (drop 2 \<circ> snd) pkts)]],
          d\<lparr>fuaBuf := [], fuaStarted := False, expectedSeq := s + of_nat (length pkts)\<rparr>)"
  using assms
proof (induction s pkts arbitrary: d rule: chain_tail.induct)
  case (1 s)
  then show ?case by simp
next
  case (2 s s' p)
  then show ?case by (simp add: Depacketize_end)
next
  case (3 s s' p q qs)
  let ?d = "d\<lparr>fuaBuf := fuaBuf d @ drop 2 p, expectedSeq := s + 1\<rparr>"
  from "3.prems" have step: "Depacketize d s' p = Some ([], ?d)"
    by (simp add: Depacketize_middle)
  from "3.prems" have "chain_tail (s + 1) (q # qs)" "fuaStarted ?d" "expectedSeq ?d = s + 1"
    by simp_all
  then have "DepacketizeAll ?d (q # qs) =
    Some (replicate (length (q # qs) - 1) [] @ [[fuaBuf ?d @ concat (map (drop 2 \<circ> snd) (q # qs))]],
          ?d\<lparr>fuaBuf := [], fuaStarted := False, expectedSeq := s + 1 + of_nat (length (q # qs))\<rparr>)"
    by (rule "3.IH")
  with step show ?case by (simp add: ac_simps comp_def)
qed

lemma chain_tail_nonempty: "chain_tail s pkts \<Longrightarrow> pkts \<noteq> []"
  by auto

lemma chain_reassembles:
  assumes "is_FUA p0" "FU_start p0" "\<not> FU_end p0" "chain_tail (s0 + 1) rest"
  shows "DepacketizeAll d ((s0, p0) # rest) =
    Some (replicate (length rest) [] @ [[NAL_header p0 # concat (map (drop 2 \<circ> snd) ((s0, p0) # rest))]],
          d\<lparr>fuaBuf := [], fuaStarted := False, expectedSeq := s0 + 1 + of_nat (length rest)\<rparr>)"
proof -
  let ?d = "d\<lparr>fuaBuf := NAL_header p0 # drop 2 p0, fuaStarted := True, expectedSeq := s0 + 1\<rparr>"
  have step: "Depacketize d s0 p0 = Some ([], ?d)"
    using assms(1-3) by (rule Depacketize_start)
  have "DepacketizeAll ?d rest =
    Some (replicate (length rest - 1) [] @ [[fuaBuf ?d @ concat (map (drop 2 \<circ> snd) rest)]],
          ?d\<lparr>fuaBuf := [], fuaStarted := False, expectedSeq := s0 + 1 + of_nat (length rest)\<rparr>)"
    using assms(4) by (rule chain_tail_reassembles) simp_all
  moreover from assms(4) have "rest \<noteq> []" by (rule chain_tail_nonempty)
  then have "[] # replicate (length rest - 1) ([] :: byte list list) = replicate (length rest) []"
    by (cases rest) simp_all
  ultimately show ?thesis using step
    by (simp del: replicate.simps add: append_Cons [symmetric] del: append_Cons)
qed

section \<open>Properties of the signaling client, the viewer and the peer\<close>

subsection \<open>The read loop\<close>

lemma dispatch_unhandled:
  assumes "unhandled lib msg"
  shows "dispatch lib msg = []"
proof (cases "Method msg \<in> dispatched_methods")
  case False
  then show ?thesis by (simp add: dispatch_def dispatched_methods_def)
next
  case True
  with assms have m: "Method msg = ''TRANSMIT''"
    and t: "MessageType msg \<notin> {''SDP_ANSWER'', ''ICE_CANDIDATE''} \<or> payload_undecodable lib msg"
    by (simp_all add: unhandled_def)
  from t show ?thesis
  proof
    assume "MessageType msg \<notin> {''SDP_ANSWER'', ''ICE_CANDIDATE''}"
    with m show ?thesis by (simp add: dispatch_def)
  next
    assume "payload_undecodable lib msg"
    with m show ?thesis
      by (auto simp add: dispatch_def payload_undecodable_def split: option.splits)
  qed
qed

lemma readLoop_skips:
  assumes "readLoop lib [Frame data] = []"
  shows "readLoop lib (pre @ Frame data # rest) = readLoop lib (pre @ rest)"
proof (induction pre)
  case Nil
  from assms show ?case by (simp split: option.splits)
next
  case (Cons t pre)
  then show ?case by (cases t) (simp_all split: option.splits)
qed

subsection \<open>The gate and the goroutines of a session\<close>

lemma description_first_snoc_description:
  "description_first calls \<Longrightarrow> description_first (calls @ [PC_SetRemoteDescription sdp engine_err])"
  by (induction calls rule: description_first.induct) (cases engine_err; simp)+

lemma description_first_after:
  "description_first calls \<Longrightarrow> PC_SetRemoteDescription sdp None \<in> set calls \<Longrightarrow>
     description_first (calls @ later)"
  by (induction calls rule: description_first.induct) auto

lemma applied_append: "applied (calls @ later) = applied calls @ applied later"
  by (induction calls rule: applied.induct) simp_all

lemma received_append: "received (evs @ later) = received evs @ received later"
  by (induction evs rule: received.induct) simp_all

lemma AddRemoteICECandidate_open:
  "remoteDescSet p = Open \<Longrightarrow> AddRemoteICECandidate p candidate engine_err = Blocked"
  by (simp add: AddRemoteICECandidate_def)

lemma AddRemoteICECandidate_closed:
  "remoteDescSet p = Closed \<Longrightarrow>
   AddRemoteICECandidate p candidate engine_err =
     Return (map_option ((@) ''add ice candidate: '') engine_err,
             p\<lparr>pc := pc p @ [PC_AddICECandidate (init_of candidate) engine_err]\<rparr>)"
  by (cases engine_err) (simp_all add: AddRemoteICECandidate_def init_of_def Let_def)

lemma gate_inv_new: "gate_inv new_session"
  by (simp add: gate_inv_def new_session_def NewPeer_def)

lemma gate_inv_answer:
  assumes "gate_inv s"
  shows "gate_inv (Viewer_OnSDPAnswer s sdp engine_err)"
proof (cases engine_err)
  case (Some err)
  with assms show ?thesis
    by (auto simp add: gate_inv_def Viewer_OnSDPAnswer_def SetRemoteDescription_def Let_def
        description_first_snoc_description)
next
  case None
  show ?thesis
  proof (cases "remoteDescSet (peer s)")
    case Open
    with None assms show ?thesis
      by (auto simp add: gate_inv_def Viewer_OnSDPAnswer_def SetRemoteDescription_def Let_def
          description_first_snoc_description)
  next
    case Closed
    with None assms show ?thesis
      by (simp add: gate_inv_def Viewer_OnSDPAnswer_def SetRemoteDescription_def Let_def)
  qed
qed

lemma gate_inv_goroutine:
  assumes "gate_inv s"
  shows "gate_inv (run_goroutine s i engine_err)"
proof (cases "i < length (parked s) \<and> remoteDescSet (peer s) = Closed")
  case True
  with assms obtain sdp where "PC_SetRemoteDescription sdp None \<in> set (pc (peer s))"
    by (auto simp add: gate_inv_def)
  with assms have "description_first (pc (peer s) @ [PC_AddICECandidate (init_of (parked s ! i)) engine_err])"
    by (auto simp add: gate_inv_def intro: description_first_after)
  with True assms show ?thesis
    by (auto simp add: gate_inv_def run_goroutine_def AddRemoteICECandidate_closed)
next
  case False
  then have "run_goroutine s i engine_err = s"
    by (cases "remoteDescSet (peer s)")
      (auto simp add: run_goroutine_def AddRemoteICECandidate_open)
  with assms show ?thesis by simp
qed

lemma gate_inv_step: "gate_inv s \<Longrightarrow> gate_inv (step s ev)"
  by (cases ev)
    (simp_all add: gate_inv_answer gate_inv_goroutine,
     simp add: gate_inv_def Viewer_OnRemoteICECandidate_def)

lemma gate_inv_foldl: "gate_inv s \<Longrightarrow> gate_inv (foldl step s evs)"
  by (induction evs arbitrary: s) (simp_all add: gate_inv_step del: step.simps)

lemma gate_inv_run: "gate_inv (run_session evs)"
  unfolding run_session_def by (rule gate_inv_foldl [OF gate_inv_new])

lemma mset_remove_nth:
  assumes "i < length xs"
  shows "mset xs = add_mset (xs ! i) (mset (take i xs @ drop (Suc i) xs))"
proof -
  have "mset xs = mset (take i xs @ xs ! i # drop (Suc i) xs)"
    using id_take_nth_drop [OF assms] by simp
  then show ?thesis by simp
qed

lemma accounted_step:
  assumes "accounted cands s" "\<not> panicked (step s ev)"
  shows "accounted (cands @ received [ev]) (step s ev)"
proof -
  from assms(2) have np: "\<not> panicked s" by (auto split: if_splits)
  show ?thesis
  proof (cases ev)
    case (Answer sdp engine_err)
    with assms(1) np show ?thesis
      by (cases engine_err; cases "remoteDescSet (peer s)")
        (simp_all add: accounted_def Viewer_OnSDPAnswer_def SetRemoteDescription_def Let_def
          applied_append)
  next
    case (RemoteCandidate candidate)
    with assms(1) np show ?thesis
      by (simp add: accounted_def Viewer_OnRemoteICECandidate_def)
  next
    case (Run i engine_err)
    show ?thesis
    proof (cases "i < length (parked s) \<and> remoteDescSet (peer s) = Closed")
      case True
      then have "mset (parked s) = add_mset (parked s ! i) (mset (take i (parked s) @ drop (Suc i) (parked s)))"
        by (intro mset_remove_nth) simp
      then have "image_mset init_of (mset (parked s))
        = add_mset (init_of (parked s ! i))
            (image_mset init_of (mset (take i (parked s) @ drop (Suc i) (parked s))))"
        by (metis image_mset_add_mset)
      with True Run assms(1) np show ?thesis
        by (simp add: accounted_def run_goroutine_def AddRemoteICECandidate_closed applied_append)
    next
      case False
      then have "run_goroutine s i engine_err = s"
        by (cases "remoteDescSet (peer s)")
          (auto simp add: run_goroutine_def AddRemoteICECandidate_open)
      with Run assms(1) np show ?thesis by simp
    qed
  qed
qed

lemma step_panicked: "panicked s \<Longrightarrow> step s ev = s"
  by simp

lemma foldl_step_panicked: "panicked s \<Longrightarrow> foldl step s evs = s"
  by (induction evs) (simp_all del: step.simps add: step_panicked)

lemma accounted_foldl:
  assumes "accounted cands s" "\<not> panicked (foldl step s evs)"
  shows "accounted (cands @ received evs) (foldl step s evs)"
  using assms
proof (induction evs arbitrary: s cands)
  case Nil
  then show ?case by simp
next
  case (Cons ev evs)
  have np: "\<not> panicked (step s ev)"
  proof
    assume "panicked (step s ev)"
    then have "foldl step (step s ev) evs = step s ev" by (rule foldl_step_panicked)
    with Cons.prems(2) \<open>panicked (step s ev)\<close> show False by (simp del: step.simps)
  qed
  with Cons.prems(1) have "accounted (cands @ received [ev]) (step s ev)"
    by (rule accounted_step)
  moreover from Cons.prems(2) have "\<not> panicked (foldl step (step s ev) evs)"
    by (simp del: step.simps)
  ultimately have "accounted ((cands @ received [ev]) @ received evs) (foldl step (step s ev) evs)"
    by (rule Cons.IH)
  moreover have "received [ev] @ received evs = received (ev # evs)"
    using received_append [of "[ev]" evs] by simp
  ultimately show ?case by (simp del: step.simps)
qed

lemma accounted_run:
  "\<not> panicked (run_session evs) \<Longrightarrow> accounted (received evs) (run_session evs)"
  unfolding run_session_def
  using accounted_foldl [of "[]" new_session evs]
  by (simp add: accounted_def new_session_def NewPeer_def)

lemma description_first_iff:
  "description_first calls \<longleftrightarrow>
     (\<forall>i < length calls. \<forall>init engine_err. calls ! i = PC_AddICECandidate init engine_err \<longrightarrow>
        (\<exists>j < i. \<exists>sdp. calls ! j = PC_SetRemoteDescription sdp None))"
proof (induction calls rule: description_first.induct)
  case 1
  then show ?case by simp
next
  case (2 sdp calls)
  have "\<exists>j < i. \<exists>sdp'. (PC_SetRemoteDescription sdp None # calls) ! j = PC_SetRemoteDescription sdp' None"
    if "(PC_SetRemoteDescription sdp None # calls) ! i = PC_AddICECandidate init engine_err"
    for i init engine_err
  proof -
    from that have "0 < i" by (cases i) auto
    then show ?thesis by (intro exI [of _ 0]) simp
  qed
  then show ?case by simp
next
  case (3 sdp err calls)
  let ?P = "\<lambda>cs. \<forall>i < length cs. \<forall>init engine_err. cs ! i = PC_AddICECandidate init engine_err \<longrightarrow>
        (\<exists>j < i. \<exists>sdp. cs ! j = PC_SetRemoteDescription sdp None)"
  have "?P (PC_SetRemoteDescription sdp (Some err) # calls) \<longleftrightarrow> ?P calls"
  proof
    assume a: "?P (PC_SetRemoteDescription sdp (Some err) # calls)"
    show "?P calls"
    proof (intro allI impI)
      fix i init engine_err
      assume i: "i < length calls" "calls ! i = PC_AddICECandidate init engine_err"
      with a [rule_format, of "Suc i" init engine_err]
      obtain j sdp' where j: "j < Suc i"
        "(PC_SetRemoteDescription sdp (Some err) # calls) ! j = PC_SetRemoteDescription sdp' None"
        by auto
      then obtain k where "j = Suc k" by (cases j) auto
      with j show "\<exists>j < i. \<exists>sdp. calls ! j = PC_SetRemoteDescription sdp None" by auto
    qed
  next
    assume a: "?P calls"
    show "?P (PC_SetRemoteDescription sdp (Some err) # calls)"
    proof (intro allI impI)
      fix i init engine_err
      assume i: "i < length (PC_SetRemoteDescription sdp (Some err) # calls)"
        "(PC_SetRemoteDescription sdp (Some err) # calls) ! i = PC_AddICECandidate init engine_err"
      then obtain k where k: "i = Suc k" by (cases i) auto
      with i a [rule_format, of k init engine_err]
      obtain j sdp' where "j < k" "calls ! j = PC_SetRemoteDescription sdp' None" by auto
      with k show "\<exists>j < i. \<exists>sdp'. (PC_SetRemoteDescription sdp (Some err) # calls) ! j
          = PC_SetRemoteDescription sdp' None"
        by (intro exI [of _ "Suc j"]) auto
    qed
  qed
  with 3 show ?case by simp
next
  case (4 init engine_err calls)
  have "\<not> (\<forall>i < length (PC_AddICECandidate init engine_err # calls). \<forall>init' engine_err'.
      (PC_AddICECandidate init engine_err # calls) ! i = PC_AddICECandidate init' engine_err' \<longrightarrow>
        (\<exists>j < i. \<exists>sdp. (PC_AddICECandidate init engine_err # calls) ! j = PC_SetRemoteDescription sdp None))"
    by (auto intro!: exI [of _ 0])
  then show ?case by simp
qed

section \<open>Properties of the depacketizer without sequence numbers\<close>

text \<open>
  The depacketizer without sequence numbers returns for every payload as well: no index
  or slice expression of it is out of range.
\<close>

lemma STAPA_loop0_returns: "\<exists>r. STAPA_loop0 payload offset nalus = Some r"
proof (induction payload offset nalus rule: STAPA_loop0.induct)
  case (1 payload offset nalus)
  show ?case
  proof (cases "offset + 2 \<le> length payload")
    case False
    then show ?thesis by (subst STAPA_loop0.simps) simp
  next
    case True
    have i0: "index payload offset = Some (payload ! offset)"
      and i1: "index payload (offset + 1) = Some (payload ! (offset + 1))"
      using True by (simp_all add: index_def)
    define size where "size = push_bit 8 (unat (payload ! offset)) OR unat (payload ! (offset + 1))"
    show ?thesis
    proof (cases "length payload < offset + 2 + size")
      case stop: True
      with True i0 i1 show ?thesis
        by (subst STAPA_loop0.simps) (simp add: Let_def size_def)
    next
      case go: False
      have sl: "slice payload (offset + 2) (offset + 2 + size)
          = Some (take size (drop (offset + 2) payload))"
        using go by (simp add: slice_def)
      have "\<exists>r. STAPA_loop0 payload (offset + 2 + size)
                 (nalus @ [take size (drop (offset + 2) payload)]) = Some r"
        using go by (intro "1.IH" [OF True i0 i1 size_def refl _ sl]) simp
      with True go i0 i1 sl show ?thesis
        by (subst STAPA_loop0.simps) (simp add: Let_def size_def)
    qed
  qed
qed

lemma Depacketize0_returns: "\<exists>nalus d'. Depacketize0 d payload = Some (nalus, d')"
proof (cases "length payload < 1")
  case True
  then show ?thesis by (simp add: Depacketize0_def)
next
  case False
  then have i0: "index payload 0 = Some (payload ! 0)"
    by (auto simp add: index_def)
  obtain ns where ns: "depacketizeSTAPA0 payload = Some ns"
    using STAPA_loop0_returns [of payload 1 "[]"] by (auto simp: depacketizeSTAPA0_def)
  have "\<exists>nalus d'. depacketizeFUA0 d payload = Some (nalus, d')"
  proof (cases "2 \<le> length payload")
    case True
    then have "index payload 0 = Some (payload ! 0)" "index payload 1 = Some (payload ! 1)"
      "slice_from payload 2 = Some (drop 2 payload)" "\<not> length payload < 2"
      by (auto simp add: index_def slice_from_def slice_def)
    then show ?thesis by (simp add: depacketizeFUA0_def Let_def split: if_splits)
  next
    case False
    then show ?thesis by (simp add: depacketizeFUA0_def)
  qed
  then obtain r d' where r: "depacketizeFUA0 d payload = Some (r, d')" by blast
  show ?thesis using False i0 ns r
    by (simp add: Depacketize0_def Let_def)
qed

section \<open>What the depacketizer with sequence tracking does\<close>

text \<open>
  The depacketizer whose \<^verbatim>\<open>Depacketize\<close> takes the sequence number drops a chain with
  a gap, drops orphan fragments and stops at a STAP-A size of zero. These are the
  behaviours that the depacketizer without sequence numbers, the one that
  \<^verbatim>\<open>readVideoTrack\<close> calls, does not have.
\<close>

text \<open>
  A gap in the sequence numbers: when a reassembly is in progress and a non-start FU-A fragment arrives whose
  sequence number is not the expected one, \<open>Depacketize\<close> drops the buffer, clears the
  started flag and returns no unit. From then on, as long as no start fragment arrives,
  every call leaves the instance as it is, and every FU-A fragment yields no unit.
\<close>

theorem gap_discards_reassembly:
  assumes "fuaStarted d" and "non_start_fragment p" and "s \<noteq> expectedSeq d"
  shows "Depacketize d s p = Some ([], d\<lparr>fuaBuf := [], fuaStarted := False\<rparr>) \<and>
    (\<forall>pkts. (\<forall>pkt \<in> set pkts. \<not> (is_FUA (snd pkt) \<and> FU_start (snd pkt))) \<longrightarrow>
       (\<exists>outs. DepacketizeAll (d\<lparr>fuaBuf := [], fuaStarted := False\<rparr>) pkts
                 = Some (outs, d\<lparr>fuaBuf := [], fuaStarted := False\<rparr>) \<and>
               length outs = length pkts \<and>
               (\<forall>i < length pkts. is_FUA (snd (pkts ! i)) \<longrightarrow> outs ! i = [])))"
proof -
  have a: "Depacketize d s p = Some ([], d\<lparr>fuaBuf := [], fuaStarted := False\<rparr>)"
    using assms(2,1,3) by (rule Depacketize_gap)
  have b: "\<not> fuaStarted (d\<lparr>fuaBuf := [], fuaStarted := False\<rparr>)" by simp
  show ?thesis using a DepacketizeAll_idle [OF b] by blast
qed

theorem gap_discards_reassembly_witness:
  "fuaStarted \<lparr>fuaBuf = [0x65, 1, 2], fuaStarted = True, expectedSeq = 101\<rparr> \<and>
   non_start_fragment [0x7C, 0x05, 3, 4] \<and>
   (102 :: uint16) \<noteq> expectedSeq \<lparr>fuaBuf = [0x65, 1, 2], fuaStarted = True, expectedSeq = 101\<rparr> \<and>
   Depacketize \<lparr>fuaBuf = [0x65, 1, 2], fuaStarted = True, expectedSeq = 101\<rparr> 102 [0x7C, 0x05, 3, 4]
     = Some ([], \<lparr>fuaBuf = [], fuaStarted = False, expectedSeq = 101\<rparr>) \<and>
   (\<exists>outs. DepacketizeAll \<lparr>fuaBuf = [], fuaStarted = False, expectedSeq = 101\<rparr> [(103, [0x7C, 0x45, 5, 6])]
             = Some (outs, \<lparr>fuaBuf = [], fuaStarted = False, expectedSeq = 101\<rparr>) \<and>
           outs = [[]])"
proof -
  let ?d = "\<lparr>fuaBuf = [0x65, 1, 2], fuaStarted = True, expectedSeq = 101 :: uint16\<rparr>"
  have h1: "fuaStarted ?d" by simp
  have h2: "non_start_fragment [0x7C, 0x05, 3, 4]"
    by (simp add: non_start_fragment_def is_FUA_def FU_start_def)
  have h3: "(102 :: uint16) \<noteq> expectedSeq ?d" by simp
  have h4: "\<forall>pkt \<in> set [(103 :: uint16, [0x7C, 0x45, 5, 6 :: byte])]. \<not> (is_FUA (snd pkt) \<and> FU_start (snd pkt))"
    by (simp add: FU_start_def)
  have f: "is_FUA [0x7C, 0x45, 5, 6]" by (simp add: is_FUA_def)
  from gap_discards_reassembly [OF h1 h2 h3]
  have a: "Depacketize ?d 102 [0x7C, 0x05, 3, 4] = Some ([], ?d\<lparr>fuaBuf := [], fuaStarted := False\<rparr>)"
    and b: "\<exists>outs. DepacketizeAll (?d\<lparr>fuaBuf := [], fuaStarted := False\<rparr>) [(103, [0x7C, 0x45, 5, 6])]
                 = Some (outs, ?d\<lparr>fuaBuf := [], fuaStarted := False\<rparr>) \<and>
               length outs = length [(103 :: uint16, [0x7C, 0x45, 5, 6 :: byte])] \<and>
               (\<forall>i < length [(103 :: uint16, [0x7C, 0x45, 5, 6 :: byte])].
                  is_FUA (snd ([(103 :: uint16, [0x7C, 0x45, 5, 6 :: byte])] ! i)) \<longrightarrow> outs ! i = [])"
    using h4 by blast+
  from b obtain outs where o: "DepacketizeAll (?d\<lparr>fuaBuf := [], fuaStarted := False\<rparr>) [(103, [0x7C, 0x45, 5, 6])]
                 = Some (outs, ?d\<lparr>fuaBuf := [], fuaStarted := False\<rparr>)"
     "length outs = 1" "outs ! 0 = []"
    using f by auto
  from o(2,3) have "outs = [[]]" by (cases outs) auto
  with o(1) a h1 h2 h3 show ?thesis by simp
qed

text \<open>
  An orphan fragment: with no reassembly in progress, a non-start FU-A fragment yields no unit and leaves
  the instance as it is; a chain of fragments that starts right after it on the same
  instance is reassembled into its unit.
\<close>

theorem orphan_fragment_dropped:
  assumes "\<not> fuaStarted d" and "non_start_fragment p"
  shows "Depacketize d s p = Some ([], d) \<and>
    (\<forall>s0 p0 rest. is_FUA p0 \<and> FU_start p0 \<and> \<not> FU_end p0 \<and> chain_tail (s0 + 1) rest \<longrightarrow>
       DepacketizeAll d ((s, p) # (s0, p0) # rest) =
         Some ([] # replicate (length rest) [] @
                 [[NAL_header p0 # concat (map (drop 2 \<circ> snd) ((s0, p0) # rest))]],
               d\<lparr>fuaBuf := [], fuaStarted := False,
                  expectedSeq := s0 + 1 + of_nat (length rest)\<rparr>))"
proof -
  have a: "Depacketize d s p = Some ([], d)"
    using assms(2,1) by (rule Depacketize_orphan)
  show ?thesis
    using a chain_reassembles [of _ _ _ d]
    by (simp del: DepacketizeAll.simps(2) add: DepacketizeAll.simps(2) [of d s p])
qed

theorem orphan_fragment_dropped_witness:
  "\<not> fuaStarted NewH264Depacketizer \<and> non_start_fragment [0x7C, 0x45, 9, 9] \<and>
   Depacketize NewH264Depacketizer 7 [0x7C, 0x45, 9, 9] = Some ([], NewH264Depacketizer) \<and>
   DepacketizeAll NewH264Depacketizer
     [(7, [0x7C, 0x45, 9, 9]), (100, [0x7C, 0x85, 1, 2]), (101, [0x7C, 0x45, 5, 6])]
     = Some ([[], [], [[0x65, 1, 2, 5, 6]]],
             \<lparr>fuaBuf = [], fuaStarted = False, expectedSeq = 102\<rparr>)"
proof -
  have h1: "\<not> fuaStarted NewH264Depacketizer" by (simp add: NewH264Depacketizer_def)
  have h2: "non_start_fragment [0x7C, 0x45, 9, 9]"
    by (simp add: non_start_fragment_def is_FUA_def FU_start_def)
  have h3: "is_FUA [0x7C, 0x85, 1, 2] \<and> FU_start [0x7C, 0x85, 1, 2] \<and> \<not> FU_end [0x7C, 0x85, 1, 2] \<and>
    chain_tail (100 + 1) [(101, [0x7C, 0x45, 5, 6])]"
    by (simp add: non_start_fragment_def is_FUA_def FU_start_def FU_end_def)
  from orphan_fragment_dropped [OF h1 h2, of 7]
  have a: "Depacketize NewH264Depacketizer 7 [0x7C, 0x45, 9, 9] = Some ([], NewH264Depacketizer)"
    and b: "DepacketizeAll NewH264Depacketizer
      ((7, [0x7C, 0x45, 9, 9]) # (100, [0x7C, 0x85, 1, 2]) # [(101, [0x7C, 0x45, 5, 6])]) =
         Some ([] # replicate (length [(101 :: uint16, [0x7C, 0x45, 5, 6 :: byte])]) [] @
                 [[NAL_header [0x7C, 0x85, 1, 2] #
                   concat (map (drop 2 \<circ> snd) ((100 :: uint16, [0x7C, 0x85, 1, 2]) # [(101, [0x7C, 0x45, 5, 6])]))]],
               NewH264Depacketizer\<lparr>fuaBuf := [], fuaStarted := False,
                  expectedSeq := 100 + 1 + of_nat (length [(101 :: uint16, [0x7C, 0x45, 5, 6 :: byte])])\<rparr>)"
    using h3 by blast+
  have "NAL_header [0x7C, 0x85, 1, 2] = 0x65" by (simp add: NAL_header_def)
  with b have "DepacketizeAll NewH264Depacketizer
     [(7, [0x7C, 0x45, 9, 9]), (100, [0x7C, 0x85, 1, 2]), (101, [0x7C, 0x45, 5, 6])]
     = Some ([[], [], [[0x65, 1, 2, 5, 6]]],
             \<lparr>fuaBuf = [], fuaStarted = False, expectedSeq = 102\<rparr>)"
    by (simp add: NewH264Depacketizer_def)
  with a h1 h2 show ?thesis by simp
qed

text \<open>
  Aggregation: every payload of type 24 is, after its header byte, a sequence of entries (a two-byte
  big-endian length, not zero, and that many bytes) followed by a remainder at which
  parsing stops: fewer than two bytes, or a length that is zero or exceeds what follows
  it. \<open>Depacketize\<close> returns the units of the entries, in order, does not fail, and
  leaves the instance unchanged.
\<close>

theorem stapa_units_before_stop:
  assumes "payload \<noteq> []" and "payload ! 0 AND 0x1f = 24"
  shows "(\<exists>units rest. stapa_layout payload units rest) \<and>
    (\<forall>units rest. stapa_layout payload units rest \<longrightarrow>
       Depacketize d s payload = Some (units, d))"
proof -
  obtain h body where payload: "payload = h # body"
    using assms(1) by (cases payload) auto
  have ex: "\<exists>units rest. stapa_layout payload units rest"
    using stapa_decompose [of body] by (simp add: stapa_layout_def payload)
  have "Depacketize d s payload = Some (units, d)"
    if "stapa_layout payload units rest" for units rest
  proof -
    from that have body: "body = concat (map stapa_entry units) @ rest"
      and ok: "\<forall>u \<in> set units. 0 < length u \<and> length u < 65536" and stop: "stops rest"
      by (simp_all add: stapa_layout_def payload)
    have "STAPA_loop ([h] @ concat (map stapa_entry units) @ rest) (length [h]) [] = Some ([] @ units)"
      using ok stop by (rule STAPA_loop_parses)
    then have "depacketizeSTAPA payload = Some units"
      by (simp add: depacketizeSTAPA_def payload body)
    then show ?thesis
      by (simp add: Depacketize_STAPA [OF assms])
  qed
  with ex show ?thesis by blast
qed

theorem stapa_units_before_stop_witness:
  "[0x18, 0, 3, 0x67, 0xAA, 0xBB, 0, 2, 0x68, 0xCC, 0, 0, 0x41, 0x9A] \<noteq> ([] :: byte list) \<and>
   [0x18, 0, 3, 0x67, 0xAA, 0xBB, 0, 2, 0x68, 0xCC, 0, 0, 0x41, 0x9A] ! 0 AND (0x1f :: byte) = 24 \<and>
   stapa_layout [0x18, 0, 3, 0x67, 0xAA, 0xBB, 0, 2, 0x68, 0xCC, 0, 0, 0x41, 0x9A]
     [[0x67, 0xAA, 0xBB], [0x68, 0xCC]] [0, 0, 0x41, 0x9A] \<and>
   Depacketize NewH264Depacketizer 100 [0x18, 0, 3, 0x67, 0xAA, 0xBB, 0, 2, 0x68, 0xCC, 0, 0, 0x41, 0x9A]
     = Some ([[0x67, 0xAA, 0xBB], [0x68, 0xCC]], NewH264Depacketizer)"
proof -
  let ?p = "[0x18, 0, 3, 0x67, 0xAA, 0xBB, 0, 2, 0x68, 0xCC, 0, 0, 0x41, 0x9A] :: byte list"
  have h1: "?p \<noteq> []" by simp
  have h2: "?p ! 0 AND 0x1f = 24" by simp
  have h3: "stapa_layout ?p [[0x67, 0xAA, 0xBB], [0x68, 0xCC]] [0, 0, 0x41, 0x9A]"
    by (simp add: stapa_layout_def stapa_entry_def stops_def declared_size_def)
  from stapa_units_before_stop [OF h1 h2, of NewH264Depacketizer 100] h3
  have "Depacketize NewH264Depacketizer 100 ?p
     = Some ([[0x67, 0xAA, 0xBB], [0x68, 0xCC]], NewH264Depacketizer)"
    by blast
  with h1 h2 h3 show ?thesis by blast
qed

section \<open>The claims\<close>

subsection \<open>Claims about the depacketizer\<close>

text \<open>
  C1: a non-start fragment whose sequence number is not the expected one must discard
  the reassembly and yield no unit. The depacketizer that \<^verbatim>\<open>readVideoTrack\<close> calls takes
  no sequence number and keeps no expected one: after a start fragment (packet 100) whose
  middle fragment (packet 101) is lost, the end fragment (packet 102) is appended to the
  buffer and a unit is returned that lacks the bytes of the lost fragment. The
  depacketizer with sequence tracking returns no unit for the same two packets.
\<close>

theorem lost_fragment_emits_unit:
  "Depacketize0 NewH264Depacketizer0 [0x7C, 0x85, 1, 2] = Some ([], \<lparr>fuaBuf0 = [0x65, 1, 2]\<rparr>) \<and>
   Depacketize0 \<lparr>fuaBuf0 = [0x65, 1, 2]\<rparr> [0x7C, 0x45, 5, 6]
     = Some ([[0x65, 1, 2, 5, 6]], NewH264Depacketizer0) \<and>
   DepacketizeAll NewH264Depacketizer [(100, [0x7C, 0x85, 1, 2]), (102, [0x7C, 0x45, 5, 6])]
     = Some ([[], []], \<lparr>fuaBuf = [], fuaStarted = False, expectedSeq = 101\<rparr>)"
proof -
  have "Depacketize0 NewH264Depacketizer0 [0x7C, 0x85, 1, 2] = Some ([], \<lparr>fuaBuf0 = [0x65, 1, 2]\<rparr>)"
    by (simp add: Depacketize0_def index_def depacketizeFUA0_def slice_from_def slice_def
        Let_def NewH264Depacketizer0_def)
  moreover have "Depacketize0 \<lparr>fuaBuf0 = [0x65, 1, 2]\<rparr> [0x7C, 0x45, 5, 6]
     = Some ([[0x65, 1, 2, 5, 6]], NewH264Depacketizer0)"
    by (simp add: Depacketize0_def index_def depacketizeFUA0_def slice_from_def slice_def
        Let_def NewH264Depacketizer0_def)
  moreover have "DepacketizeAll NewH264Depacketizer [(100, [0x7C, 0x85, 1, 2]), (102, [0x7C, 0x45, 5, 6])]
     = Some ([[], []], \<lparr>fuaBuf = [], fuaStarted = False, expectedSeq = 101\<rparr>)"
    by (simp add: Depacketize_def index_def depacketizeFUA_def slice_from_def slice_def
        Let_def NewH264Depacketizer_def)
  ultimately show ?thesis by (intro conjI)
qed

text \<open>
  C3: a non-start fragment that arrives when no reassembly is in progress must be dropped
  with an empty result. The depacketizer that \<^verbatim>\<open>readVideoTrack\<close> calls has no started
  flag: on a new instance, an end fragment with no start fragment before it is appended
  to the empty buffer and returned as a unit, a unit with no header byte. The
  depacketizer with sequence tracking returns no unit for the same fragment.
\<close>

theorem orphan_end_fragment_emits_unit:
  "non_start_fragment [0x7C, 0x45, 3, 4] \<and> FU_end [0x7C, 0x45, 3, 4] \<and>
   Depacketize0 NewH264Depacketizer0 [0x7C, 0x45, 3, 4]
     = Some ([[3, 4]], NewH264Depacketizer0) \<and>
   Depacketize NewH264Depacketizer 101 [0x7C, 0x45, 3, 4] = Some ([], NewH264Depacketizer)"
proof -
  have "non_start_fragment [0x7C, 0x45, 3, 4]" "FU_end [0x7C, 0x45, 3, 4]"
    by (simp_all add: non_start_fragment_def is_FUA_def FU_start_def FU_end_def)
  moreover have "Depacketize0 NewH264Depacketizer0 [0x7C, 0x45, 3, 4]
     = Some ([[3, 4]], NewH264Depacketizer0)"
    by (simp add: Depacketize0_def index_def depacketizeFUA0_def slice_from_def slice_def
        Let_def NewH264Depacketizer0_def)
  moreover have "Depacketize NewH264Depacketizer 101 [0x7C, 0x45, 3, 4]
     = Some ([], NewH264Depacketizer)"
    by (simp add: Depacketize_def index_def depacketizeFUA_def Let_def NewH264Depacketizer_def)
  ultimately show ?thesis by (intro conjI)
qed

text \<open>
  C5: a start fragment followed by consecutively numbered non-start fragments, of which
  the last and only the last carries the end flag, yields nothing on every call but the
  last, and on the last exactly one unit: the rebuilt header byte followed by the bytes
  from byte 2 onward of every fragment, in order. A start fragment that carries the end
  flag yields its unit at once and leaves no reassembly in progress.
\<close>

theorem fragment_chain_reassembled:
  "(is_FUA p0 \<and> FU_start p0 \<and> \<not> FU_end p0 \<and> chain_tail (s0 + 1) rest \<longrightarrow>
      DepacketizeAll d ((s0, p0) # rest) =
        Some (replicate (length rest) [] @
                [[NAL_header p0 # concat (map (drop 2 \<circ> snd) ((s0, p0) # rest))]],
              d\<lparr>fuaBuf := [], fuaStarted := False,
                 expectedSeq := s0 + 1 + of_nat (length rest)\<rparr>)) \<and>
   (is_FUA p0 \<and> FU_start p0 \<and> FU_end p0 \<longrightarrow>
      Depacketize d s0 p0 =
        Some ([NAL_header p0 # drop 2 p0],
              d\<lparr>fuaBuf := [], fuaStarted := False, expectedSeq := s0 + 1\<rparr>)) \<and>
   NAL_header p0 = (p0 ! 0 AND 0xe0) OR (p0 ! 1 AND 0x1f)"
  using chain_reassembles [of p0 s0 rest d] Depacketize_start_end [of p0 d s0]
  by (simp add: NAL_header_def)

theorem fragment_chain_reassembled_witness:
  "is_FUA [0x7C, 0x85, 1, 2] \<and> FU_start [0x7C, 0x85, 1, 2] \<and> \<not> FU_end [0x7C, 0x85, 1, 2] \<and>
   chain_tail (100 + 1) [(101, [0x7C, 0x05, 3, 4]), (102, [0x7C, 0x45, 5, 6])] \<and>
   DepacketizeAll NewH264Depacketizer
     [(100, [0x7C, 0x85, 1, 2]), (101, [0x7C, 0x05, 3, 4]), (102, [0x7C, 0x45, 5, 6])]
     = Some ([[], [], [[0x65, 1, 2, 3, 4, 5, 6]]],
             \<lparr>fuaBuf = [], fuaStarted = False, expectedSeq = 103\<rparr>) \<and>
   is_FUA [0x7C, 0xC5, 1, 2] \<and> FU_start [0x7C, 0xC5, 1, 2] \<and> FU_end [0x7C, 0xC5, 1, 2] \<and>
   Depacketize NewH264Depacketizer 100 [0x7C, 0xC5, 1, 2]
     = Some ([[0x65, 1, 2]], \<lparr>fuaBuf = [], fuaStarted = False, expectedSeq = 101\<rparr>)"
proof -
  have h1: "is_FUA [0x7C, 0x85, 1, 2] \<and> FU_start [0x7C, 0x85, 1, 2] \<and> \<not> FU_end [0x7C, 0x85, 1, 2] \<and>
    chain_tail (100 + 1) [(101, [0x7C, 0x05, 3, 4]), (102, [0x7C, 0x45, 5, 6])]"
    by (simp add: non_start_fragment_def is_FUA_def FU_start_def FU_end_def)
  have h2: "is_FUA [0x7C, 0xC5, 1, 2] \<and> FU_start [0x7C, 0xC5, 1, 2] \<and> FU_end [0x7C, 0xC5, 1, 2]"
    by (simp add: is_FUA_def FU_start_def FU_end_def)
  have a: "DepacketizeAll NewH264Depacketizer
     [(100, [0x7C, 0x85, 1, 2]), (101, [0x7C, 0x05, 3, 4]), (102, [0x7C, 0x45, 5, 6])]
     = Some ([[], [], [[0x65, 1, 2, 3, 4, 5, 6]]],
             \<lparr>fuaBuf = [], fuaStarted = False, expectedSeq = 103\<rparr>)"
    using fragment_chain_reassembled [of "[0x7C, 0x85, 1, 2]" 100
        "[(101, [0x7C, 0x05, 3, 4]), (102, [0x7C, 0x45, 5, 6])]" NewH264Depacketizer] h1
    by (simp add: NewH264Depacketizer_def)
  have b: "Depacketize NewH264Depacketizer 100 [0x7C, 0xC5, 1, 2]
     = Some ([[0x65, 1, 2]], \<lparr>fuaBuf = [], fuaStarted = False, expectedSeq = 101\<rparr>)"
    using fragment_chain_reassembled [of "[0x7C, 0xC5, 1, 2]" 100 "[]" NewH264Depacketizer] h2
    by (simp add: NewH264Depacketizer_def)
  from h1 h2 a b show ?thesis by simp
qed

text \<open>
  C4: parsing of a STAP-A payload must stop at the first size that is zero and return
  the units before it. The loop of the depacketizer that \<^verbatim>\<open>readVideoTrack\<close> calls has no
  test for a size of zero: for a payload whose first declared size is zero, so that the
  claim's result is no unit, it returns an empty unit, goes on, and returns the entry
  after it as well. The depacketizer with sequence tracking returns no unit.
\<close>

theorem zero_size_entry_does_not_stop:
  "[0x18, 0, 0, 0, 1, 0x41] ! 0 AND (0x1f :: byte) = 24 \<and>
   declared_size (tl [0x18, 0, 0, 0, 1, 0x41]) = 0 \<and>
   Depacketize0 NewH264Depacketizer0 [0x18, 0, 0, 0, 1, 0x41]
     = Some ([[], [0x41]], NewH264Depacketizer0) \<and>
   Depacketize NewH264Depacketizer 100 [0x18, 0, 0, 0, 1, 0x41]
     = Some ([], NewH264Depacketizer)"
proof -
  have "[0x18, 0, 0, 0, 1, 0x41] ! 0 AND (0x1f :: byte) = 24" by simp
  moreover have "declared_size (tl [0x18, 0, 0, 0, 1, 0x41]) = 0"
    by (simp add: declared_size_def)
  moreover have "Depacketize0 NewH264Depacketizer0 [0x18, 0, 0, 0, 1, 0x41]
     = Some ([[], [0x41]], NewH264Depacketizer0)"
    by (simp add: Depacketize0_def index_def depacketizeSTAPA0_def STAPA_loop0.simps
        slice_def Let_def)
  moreover have "Depacketize NewH264Depacketizer 100 [0x18, 0, 0, 0, 1, 0x41]
     = Some ([], NewH264Depacketizer)"
    by (simp add: Depacketize_def index_def depacketizeSTAPA_def STAPA_loop.simps
        slice_def Let_def)
  ultimately show ?thesis by (intro conjI)
qed

text \<open>
  C7: \<open>Depacketize\<close> returns for every instance, sequence number and payload: no index
  or slice expression is out of range. The empty payload, a payload whose type is
  outside 1..23, 24 and 28, and a payload of type 28 with fewer than two bytes give the
  empty result.
\<close>

theorem Depacketize_total:
  "(\<exists>nalus d'. Depacketize d s payload = Some (nalus, d')) \<and>
   (payload = [] \<longrightarrow> Depacketize d s payload = Some ([], d)) \<and>
   (payload \<noteq> [] \<and> \<not> (1 \<le> payload ! 0 AND 0x1f \<and> payload ! 0 AND 0x1f \<le> 23) \<and>
      payload ! 0 AND 0x1f \<noteq> 24 \<and> payload ! 0 AND 0x1f \<noteq> 28 \<longrightarrow>
      Depacketize d s payload = Some ([], d)) \<and>
   (payload ! 0 AND 0x1f = 28 \<and> length payload < 2 \<longrightarrow>
      Depacketize d s payload = Some ([], d))"
proof (intro conjI impI)
  show "\<exists>nalus d'. Depacketize d s payload = Some (nalus, d')"
    by (rule Depacketize_returns)
  show "Depacketize d s payload = Some ([], d)" if "payload = []"
    using that by (simp add: Depacketize_empty)
  show "Depacketize d s payload = Some ([], d)"
    if "payload \<noteq> [] \<and> \<not> (1 \<le> payload ! 0 AND 0x1f \<and> payload ! 0 AND 0x1f \<le> 23) \<and>
      payload ! 0 AND 0x1f \<noteq> 24 \<and> payload ! 0 AND 0x1f \<noteq> 28"
    using that by (intro Depacketize_unsupported) simp_all
  show "Depacketize d s payload = Some ([], d)"
    if "payload ! 0 AND 0x1f = 28 \<and> length payload < 2"
  proof (cases "payload = []")
    case True
    then show ?thesis by (simp add: Depacketize_empty)
  next
    case False
    with that have "length payload = 1" by (cases payload) auto
    with that show ?thesis by (simp add: Depacketize_short_FUA)
  qed
qed

theorem Depacketize_total_witness:
  "Depacketize NewH264Depacketizer 0 [] = Some ([], NewH264Depacketizer) \<and>
   [0x1E, 1, 2] \<noteq> ([] :: byte list) \<and>
   \<not> (1 \<le> [0x1E, 1, 2] ! 0 AND (0x1f :: byte) \<and> [0x1E, 1, 2] ! 0 AND (0x1f :: byte) \<le> 23) \<and>
   [0x1E, 1, 2] ! 0 AND (0x1f :: byte) \<noteq> 24 \<and> [0x1E, 1, 2] ! 0 AND (0x1f :: byte) \<noteq> 28 \<and>
   Depacketize NewH264Depacketizer 5 [0x1E, 1, 2] = Some ([], NewH264Depacketizer) \<and>
   [0x7C] ! 0 AND (0x1f :: byte) = 28 \<and> length [0x7C :: byte] < 2 \<and>
   Depacketize NewH264Depacketizer 9 [0x7C] = Some ([], NewH264Depacketizer)"
proof -
  have h2: "[0x1E, 1, 2] \<noteq> ([] :: byte list) \<and>
   \<not> (1 \<le> [0x1E, 1, 2] ! 0 AND (0x1f :: byte) \<and> [0x1E, 1, 2] ! 0 AND (0x1f :: byte) \<le> 23) \<and>
   [0x1E, 1, 2] ! 0 AND (0x1f :: byte) \<noteq> 24 \<and> [0x1E, 1, 2] ! 0 AND (0x1f :: byte) \<noteq> 28"
    by simp
  have h3: "[0x7C] ! 0 AND (0x1f :: byte) = 28 \<and> length [0x7C :: byte] < 2" by simp
  have a: "Depacketize NewH264Depacketizer 0 [] = Some ([], NewH264Depacketizer)"
    using Depacketize_total [of NewH264Depacketizer 0 "[]"] by blast
  have b: "Depacketize NewH264Depacketizer 5 [0x1E, 1, 2] = Some ([], NewH264Depacketizer)"
    using Depacketize_total [of NewH264Depacketizer 5 "[0x1E, 1, 2]"] h2 by blast
  have c: "Depacketize NewH264Depacketizer 9 [0x7C] = Some ([], NewH264Depacketizer)"
    using Depacketize_total [of NewH264Depacketizer 9 "[0x7C]"] h3 by blast
  from a b c h2 h3 show ?thesis by blast
qed

text \<open>
  C10: a call whose payload is empty or has a type other than 28 in the low five bits of
  its first byte returns with the instance unchanged: buffer, started flag and expected
  sequence number are what they were. The packets that follow are therefore handled as if
  the call had not been made, so a reassembly in progress is completed by its remaining
  fragments.
\<close>

theorem non_fragment_keeps_state:
  assumes "payload = [] \<or> payload ! 0 AND 0x1f \<noteq> 28"
  shows "\<exists>nalus. Depacketize d s payload = Some (nalus, d) \<and>
    (\<forall>pkts. DepacketizeAll d ((s, payload) # pkts) =
       map_option (\<lambda>(outs, d'). (nalus # outs, d')) (DepacketizeAll d pkts))"
proof -
  from assms obtain nalus where n: "Depacketize d s payload = Some (nalus, d)"
    using Depacketize_frame by blast
  have "DepacketizeAll d ((s, payload) # pkts) =
       map_option (\<lambda>(outs, d'). (nalus # outs, d')) (DepacketizeAll d pkts)" for pkts
    by (cases "DepacketizeAll d pkts") (auto simp add: n)
  with n show ?thesis by blast
qed

theorem non_fragment_keeps_state_witness:
  "([0x65, 7, 8] = ([] :: byte list) \<or> [0x65, 7, 8] ! 0 AND (0x1f :: byte) \<noteq> 28) \<and>
   (\<exists>nalus. Depacketize \<lparr>fuaBuf = [0x65, 1, 2], fuaStarted = True, expectedSeq = 101\<rparr> 101 [0x65, 7, 8]
     = Some (nalus, \<lparr>fuaBuf = [0x65, 1, 2], fuaStarted = True, expectedSeq = 101\<rparr>))"
proof -
  have h: "[0x65, 7, 8] = ([] :: byte list) \<or> [0x65, 7, 8] ! 0 AND (0x1f :: byte) \<noteq> 28"
    by simp
  from non_fragment_keeps_state [OF h, of "\<lparr>fuaBuf = [0x65, 1, 2], fuaStarted = True, expectedSeq = 101\<rparr>" 101] h
  show ?thesis by blast
qed

subsection \<open>Claims about the signaling client, the viewer and the peer\<close>

text \<open>
  C8: a frame whose method is outside the dispatched set, a \<^verbatim>\<open>TRANSMIT\<close> frame with an
  unknown message type or with a payload that fails base64 or JSON decoding, and a frame
  that is not JSON at all cause no handler call, and the read loop goes on: the handler
  calls of the whole run are those of the run without the frame.
\<close>

theorem unhandled_frame_dropped:
  "(unhandled lib msg \<longrightarrow> dispatch lib msg = []) \<and>
   (json_Unmarshal_message lib data = None \<or>
      (\<exists>msg. json_Unmarshal_message lib data = Some msg \<and> unhandled lib msg) \<longrightarrow>
    readLoop lib (pre @ Frame data # rest) = readLoop lib (pre @ rest))"
proof (intro conjI impI)
  show "dispatch lib msg = []" if "unhandled lib msg"
    using that by (rule dispatch_unhandled)
  show "readLoop lib (pre @ Frame data # rest) = readLoop lib (pre @ rest)"
    if "json_Unmarshal_message lib data = None \<or>
      (\<exists>msg. json_Unmarshal_message lib data = Some msg \<and> unhandled lib msg)"
  proof -
    from that have "readLoop lib [Frame data] = []"
      by (auto simp add: dispatch_unhandled)
    then show ?thesis by (rule readLoop_skips)
  qed
qed

theorem unhandled_frame_dropped_witness:
  "unhandled example_encoding (zero_message\<lparr>Method := ''PING''\<rparr>) \<and>
   dispatch example_encoding (zero_message\<lparr>Method := ''PING''\<rparr>) = [] \<and>
   json_Unmarshal_message example_encoding ''ping'' = Some (zero_message\<lparr>Method := ''PING''\<rparr>) \<and>
   readLoop example_encoding ([Frame ''peer-in''] @ Frame ''ping'' # [Frame ''bye''])
     = [OnPeerIn, OnPeerOut] \<and>
   json_Unmarshal_message example_encoding ''{'' = None \<and>
   readLoop example_encoding ([Frame ''peer-in''] @ Frame ''{'' # [Frame ''bye''])
     = [OnPeerIn, OnPeerOut]"
proof -
  let ?ping = "zero_message\<lparr>Method := ''PING''\<rparr>"
  have h1: "unhandled example_encoding ?ping"
    by (simp add: unhandled_def dispatched_methods_def)
  have h2: "json_Unmarshal_message example_encoding ''ping'' = Some ?ping"
    by (simp add: example_encoding_def)
  have h3: "json_Unmarshal_message example_encoding ''{'' = None"
    by (simp add: example_encoding_def)
  have without: "readLoop example_encoding ([Frame ''peer-in''] @ [Frame ''bye'']) = [OnPeerIn, OnPeerOut]"
    by (simp add: example_encoding_def dispatch_def)
  have a: "dispatch example_encoding ?ping = []"
    using unhandled_frame_dropped [of example_encoding ?ping] h1 by blast
  have b: "readLoop example_encoding ([Frame ''peer-in''] @ Frame ''ping'' # [Frame ''bye''])
     = [OnPeerIn, OnPeerOut]"
    using unhandled_frame_dropped [of example_encoding ?ping "''ping''" "[Frame ''peer-in'']" "[Frame ''bye'']"]
      h1 h2 without by simp
  have c: "readLoop example_encoding ([Frame ''peer-in''] @ Frame ''{'' # [Frame ''bye''])
     = [OnPeerIn, OnPeerOut]"
    using unhandled_frame_dropped [of example_encoding ?ping "''{''" "[Frame ''peer-in'']" "[Frame ''bye'']"]
      h3 without by simp
  from h1 h2 h3 a b c show ?thesis by (intro conjI)
qed

text \<open>
  C9: when \<^verbatim>\<open>CreateOffer\<close> returns a text without error, \<^verbatim>\<open>OnPeerIn\<close> makes exactly one
  call on the signaler, \<^verbatim>\<open>SendSDPOffer\<close> with that text; the client passes one message to
  \<^verbatim>\<open>sendJSON\<close>, a \<^verbatim>\<open>TRANSMIT\<close> of type \<^verbatim>\<open>SDP_OFFER\<close> whose payload is the base64
  encoding of the JSON of type "offer" and that text, and \<^verbatim>\<open>sendJSON\<close> writes it to the
  socket once unless marshalling fails. When \<^verbatim>\<open>CreateOffer\<close> returns an error,
  \<^verbatim>\<open>OnPeerIn\<close> ends the process through \<^verbatim>\<open>log.Fatalf\<close>.
\<close>

theorem peer_in_sends_offer:
  "Viewer_OnPeerIn (sdp, None) = Done [Call_SendSDPOffer sdp] \<and>
   Viewer_OnPeerIn (sdp, Some err) = Fatal \<and>
   (\<exists>msg. map (Client_call lib c) [Call_SendSDPOffer sdp] = [sendJSON lib msg] \<and>
      Method msg = ''TRANSMIT'' \<and> MessageType msg = ''SDP_OFFER'' \<and>
      MessagePayload msg
        = base64_EncodeToString lib (json_Marshal_SDP lib \<lparr>Type = ''offer'', SDP = sdp\<rparr>) \<and>
      sendJSON lib msg
        = (case json_Marshal_message lib msg of None \<Rightarrow> [] | Some data \<Rightarrow> [WriteMessage data]))"
proof -
  let ?msg = "zero_message\<lparr>Method := ''TRANSMIT'', MessageType := ''SDP_OFFER'',
     MessagePayload := base64_EncodeToString lib (json_Marshal_SDP lib \<lparr>Type = ''offer'', SDP = sdp\<rparr>),
     Mode := ''vicoo'', RecipientClientID := serial c, SenderClientID := Ticket.ID (ticket c),
     SessionID := sessionID c, ViewerType := ''a4x_sdk'', Resolution := ''1280x720'',
     Version := ''0.0.1''\<rparr>"
  have sent: "map (Client_call lib c) [Call_SendSDPOffer sdp] = [sendJSON lib ?msg]"
    by (simp add: SendSDPOffer_def Let_def)
  have fields: "Method ?msg = ''TRANSMIT''" "MessageType ?msg = ''SDP_OFFER''"
    "MessagePayload ?msg
        = base64_EncodeToString lib (json_Marshal_SDP lib \<lparr>Type = ''offer'', SDP = sdp\<rparr>)"
    by simp_all
  have written: "sendJSON lib ?msg
      = (case json_Marshal_message lib ?msg of None \<Rightarrow> [] | Some data \<Rightarrow> [WriteMessage data])"
    by (simp only: sendJSON_def)
  have "\<exists>msg. map (Client_call lib c) [Call_SendSDPOffer sdp] = [sendJSON lib msg] \<and>
      Method msg = ''TRANSMIT'' \<and> MessageType msg = ''SDP_OFFER'' \<and>
      MessagePayload msg
        = base64_EncodeToString lib (json_Marshal_SDP lib \<lparr>Type = ''offer'', SDP = sdp\<rparr>) \<and>
      sendJSON lib msg
        = (case json_Marshal_message lib msg of None \<Rightarrow> [] | Some data \<Rightarrow> [WriteMessage data])"
    by (rule exI [of _ ?msg]) (intro conjI sent fields written)
  moreover have "Viewer_OnPeerIn (sdp, None) = Done [Call_SendSDPOffer sdp]"
    "Viewer_OnPeerIn (sdp, Some err) = Fatal"
    by (simp_all add: Viewer_OnPeerIn_def)
  ultimately show ?thesis by (intro conjI)
qed

text \<open>
  C2: on a new peer, a call of \<^verbatim>\<open>SetRemoteDescription\<close> that the engine accepts returns
  no error and closes the gate. A second call that the engine accepts closes the closed
  channel again: it panics, and returns no error value.
\<close>

theorem second_answer_panics:
  "SetRemoteDescription NewPeer sdp None
     = Return (None, \<lparr>pc = [PC_SetRemoteDescription (SDP sdp) None], remoteDescSet = Closed\<rparr>) \<and>
   SetRemoteDescription \<lparr>pc = [PC_SetRemoteDescription (SDP sdp) None], remoteDescSet = Closed\<rparr>
     sdp' None = Panic"
  by (simp add: SetRemoteDescription_def NewPeer_def Let_def)

text \<open>
  C6: in every run of a session, under every interleaving of the handlers and the
  goroutines, each \<^verbatim>\<open>AddICECandidate\<close> call on the connection comes after an accepted
  \<^verbatim>\<open>SetRemoteDescription\<close> call. \<^verbatim>\<open>AddRemoteICECandidate\<close> is blocked while the gate is
  open and makes the call once it is closed, and the gate is closed exactly when a
  \<^verbatim>\<open>SetRemoteDescription\<close> has been accepted. As long as the process has not panicked,
  every candidate given to \<^verbatim>\<open>OnRemoteICECandidate\<close> is the candidate of a parked
  goroutine or has been handed to \<^verbatim>\<open>AddICECandidate\<close>.
\<close>

theorem candidates_wait_for_description:
  "(\<forall>i < length (pc (peer (run_session evs))). \<forall>init err.
      pc (peer (run_session evs)) ! i = PC_AddICECandidate init err \<longrightarrow>
      (\<exists>j < i. \<exists>sdp. pc (peer (run_session evs)) ! j = PC_SetRemoteDescription sdp None)) \<and>
   (remoteDescSet p = Open \<longrightarrow> AddRemoteICECandidate p candidate engine_err = Blocked) \<and>
   (remoteDescSet p = Closed \<longrightarrow>
      AddRemoteICECandidate p candidate engine_err =
        Return (map_option ((@) ''add ice candidate: '') engine_err,
                p\<lparr>pc := pc p @ [PC_AddICECandidate (init_of candidate) engine_err]\<rparr>)) \<and>
   (remoteDescSet (peer (run_session evs)) = Closed \<longleftrightarrow>
      (\<exists>sdp. PC_SetRemoteDescription sdp None \<in> set (pc (peer (run_session evs))))) \<and>
   (\<not> panicked (run_session evs) \<longrightarrow> accounted (received evs) (run_session evs))"
proof -
  have inv: "gate_inv (run_session evs)" by (rule gate_inv_run)
  then have "description_first (pc (peer (run_session evs)))" by (simp add: gate_inv_def)
  then have order: "\<forall>i < length (pc (peer (run_session evs))). \<forall>init err.
      pc (peer (run_session evs)) ! i = PC_AddICECandidate init err \<longrightarrow>
      (\<exists>j < i. \<exists>sdp. pc (peer (run_session evs)) ! j = PC_SetRemoteDescription sdp None)"
    by (simp only: description_first_iff)
  from inv have gate: "remoteDescSet (peer (run_session evs)) = Closed \<longleftrightarrow>
      (\<exists>sdp. PC_SetRemoteDescription sdp None \<in> set (pc (peer (run_session evs))))"
    by (simp add: gate_inv_def)
  show ?thesis
    using order gate AddRemoteICECandidate_open [of p candidate engine_err]
      AddRemoteICECandidate_closed [of p candidate engine_err] accounted_run [of evs]
    by (intro conjI impI) assumption+
qed

theorem candidates_wait_for_description_witness:
  "pc (peer (run_session
      [RemoteCandidate \<lparr>SDPMid = ''0'', SDPMLineIndex = 0, Candidate = ''candidate:1''\<rparr>,
       Run 0 None,
       Answer \<lparr>Type = ''answer'', SDP = ''v=0''\<rparr> None,
       Run 0 None]))
     = [PC_SetRemoteDescription ''v=0'' None,
        PC_AddICECandidate (init_of \<lparr>SDPMid = ''0'', SDPMLineIndex = 0, Candidate = ''candidate:1''\<rparr>) None] \<and>
   (\<exists>j < 1. \<exists>sdp. pc (peer (run_session
      [RemoteCandidate \<lparr>SDPMid = ''0'', SDPMLineIndex = 0, Candidate = ''candidate:1''\<rparr>,
       Run 0 None,
       Answer \<lparr>Type = ''answer'', SDP = ''v=0''\<rparr> None,
       Run 0 None])) ! j = PC_SetRemoteDescription sdp None) \<and>
   remoteDescSet NewPeer = Open \<and>
   AddRemoteICECandidate NewPeer \<lparr>SDPMid = ''0'', SDPMLineIndex = 0, Candidate = ''candidate:1''\<rparr> None
     = Blocked \<and>
   remoteDescSet (NewPeer\<lparr>remoteDescSet := Closed\<rparr>) = Closed \<and>
   AddRemoteICECandidate (NewPeer\<lparr>remoteDescSet := Closed\<rparr>)
       \<lparr>SDPMid = ''0'', SDPMLineIndex = 0, Candidate = ''candidate:1''\<rparr> None
     = Return (None, NewPeer\<lparr>remoteDescSet := Closed,
         pc := [PC_AddICECandidate (init_of \<lparr>SDPMid = ''0'', SDPMLineIndex = 0, Candidate = ''candidate:1''\<rparr>) None]\<rparr>) \<and>
   \<not> panicked (run_session
      [RemoteCandidate \<lparr>SDPMid = ''0'', SDPMLineIndex = 0, Candidate = ''candidate:1''\<rparr>,
       Run 0 None,
       Answer \<lparr>Type = ''answer'', SDP = ''v=0''\<rparr> None,
       Run 0 None]) \<and>
   accounted [\<lparr>SDPMid = ''0'', SDPMLineIndex = 0, Candidate = ''candidate:1''\<rparr>]
     (run_session
      [RemoteCandidate \<lparr>SDPMid = ''0'', SDPMLineIndex = 0, Candidate = ''candidate:1''\<rparr>,
       Run 0 None,
       Answer \<lparr>Type = ''answer'', SDP = ''v=0''\<rparr> None,
       Run 0 None])"
proof -
  let ?c = "\<lparr>SDPMid = ''0'', SDPMLineIndex = 0, Candidate = ''candidate:1''\<rparr>"
  let ?evs = "[RemoteCandidate ?c, Run 0 None, Answer \<lparr>Type = ''answer'', SDP = ''v=0''\<rparr> None, Run 0 None]"
  have run: "run_session ?evs
    = \<lparr>peer = \<lparr>pc = [PC_SetRemoteDescription ''v=0'' None, PC_AddICECandidate (init_of ?c) None],
                remoteDescSet = Closed\<rparr>, parked = [], panicked = False\<rparr>"
    by (simp add: run_session_def new_session_def NewPeer_def Viewer_OnRemoteICECandidate_def
        run_goroutine_def AddRemoteICECandidate_def Viewer_OnSDPAnswer_def
        SetRemoteDescription_def init_of_def Let_def)
  have log: "pc (peer (run_session ?evs))
    = [PC_SetRemoteDescription ''v=0'' None, PC_AddICECandidate (init_of ?c) None]"
    by (simp add: run)
  have h1: "remoteDescSet NewPeer = Open" by (simp add: NewPeer_def)
  have h2: "remoteDescSet (NewPeer\<lparr>remoteDescSet := Closed\<rparr>) = Closed" by simp
  have h3: "\<not> panicked (run_session ?evs)" by (simp add: run)
  have h4: "1 < length (pc (peer (run_session ?evs)))"
    "pc (peer (run_session ?evs)) ! 1 = PC_AddICECandidate (init_of ?c) None"
    by (simp_all add: log)
  note thm1 = candidates_wait_for_description [of ?evs NewPeer ?c None]
  note thm2 = candidates_wait_for_description [of ?evs "NewPeer\<lparr>remoteDescSet := Closed\<rparr>" ?c None]
  from thm1 h4 have a: "\<exists>j < 1. \<exists>sdp. pc (peer (run_session ?evs)) ! j = PC_SetRemoteDescription sdp None"
    by blast
  from thm1 h1 have b: "AddRemoteICECandidate NewPeer ?c None = Blocked" by blast
  from thm2 h2 have "AddRemoteICECandidate (NewPeer\<lparr>remoteDescSet := Closed\<rparr>) ?c None
     = Return (map_option ((@) ''add ice candidate: '') None,
         NewPeer\<lparr>remoteDescSet := Closed,
           pc := pc (NewPeer\<lparr>remoteDescSet := Closed\<rparr>) @ [PC_AddICECandidate (init_of ?c) None]\<rparr>)"
    by simp
  then have c: "AddRemoteICECandidate (NewPeer\<lparr>remoteDescSet := Closed\<rparr>) ?c None
     = Return (None, NewPeer\<lparr>remoteDescSet := Closed, pc := [PC_AddICECandidate (init_of ?c) None]\<rparr>)"
    by (simp add: NewPeer_def)
  from thm1 h3 have "accounted (received ?evs) (run_session ?evs)" by blast
  then have d: "accounted [?c] (run_session ?evs)" by simp
  from log a h1 b h2 c h3 d show ?thesis by (intro conjI)
qed

end
